theory Spec2Isabelle
  imports Complex_Main "HOL-Library.Log_Nat"
begin

section \<open>SynthMed: configuration, module loading and the patient generator\<close>

text \<open>
  A shallow embedding of \<^verbatim>\<open>synthmed/config.py\<close>, \<^verbatim>\<open>synthmed/engine/module.py\<close>,
  \<^verbatim>\<open>synthmed/engine/generator.py\<close> and \<^verbatim>\<open>synthmed/engine/engine.py\<close>.

  Conventions.
  \<^item> Python exceptions are values of \<open>py_error\<close>; a function that may raise returns
    \<open>py_error + 'a\<close> with \<open>Inl\<close> the exception.
  \<^item> The gender ratio of a Config holds Python floats, modelled as IEEE 754 binary64
    values (\<open>pyfloat\<close>): every operation of \<^verbatim>\<open>Config.__post_init__\<close> and of the gender
    selection on them rounds to nearest, overflows to an infinity and propagates NaN as
    the interpreter does. The uniform draws, the probabilities of the module states and
    the race distribution are exact reals.
  \<^item> The module-level generator of Python's \<^verbatim>\<open>random\<close> is explicit state: an \<open>rng\<close> is
    the infinite sequence of uniform draws still to come. \<^verbatim>\<open>random.seed(k)\<close> replaces the
    sequence by \<open>mt k\<close>, where \<open>mt\<close> (the library's Mersenne Twister, which is not part of the
    repository) is a parameter of every function that seeds.
  \<^item> A \<^verbatim>\<open>datetime.date\<close> is its proleptic Gregorian ordinal (\<^verbatim>\<open>date.toordinal()\<close>), an
    \<open>int\<close>; adding \<^verbatim>\<open>timedelta(days=7)\<close> adds 7. The constructor's range check is modelled
    (\<open>mk_date\<close>); the overflow of date arithmetic past year 9999 is not.
  \<^item> The wall clock (\<^verbatim>\<open>date.today()\<close>, \<^verbatim>\<open>datetime.now()\<close>) is read from an explicit \<open>env\<close>.
\<close>

subsection \<open>Exceptions\<close>

datatype py_error =
    ValueError
  | ZeroDivisionError
  | IndexError
  | RecursionError
  | LoadError string  \<comment> \<open>named by the specification only; no source function raises it\<close>

subsection \<open>Floats\<close>

text \<open>
  A Python float is an IEEE 754 binary64 value: a finite real, an infinity or NaN. The
  two zeros are identified (they compare equal, and dividing by either raises).
\<close>

datatype pyfloat = Fin real | PInf | NInf | NaN

text \<open>Rounding to the nearest integer, a tie going to the even one.\<close>

definition round_half_even :: "real \<Rightarrow> int" where
  "round_half_even y =
     (let f = \<lfloor>y\<rfloor>; d = y - of_int f in
      if d < 1 / 2 then f else if 1 / 2 < d then f + 1 else if even f then f else f + 1)"

text \<open>
  The binary exponent of a real: \<open>e\<close> with \<open>2^e \<le> \<bar>x\<bar> < 2^(e+1)\<close>, and the least normal
  exponent -1022 for every smaller \<open>x\<close> (the subnormal range).
\<close>

definition float_exponent :: "real \<Rightarrow> int" where
  "float_exponent x = max (bitlen \<lfloor>\<bar>x\<bar> * 2 ^ 1074\<rfloor> - 1075) (- 1022)"

text \<open>
  Rounding a real to 53 significant bits, to nearest and ties to even, with the exponent
  still unbounded above; \<open>to_float\<close> is the result of a float operation whose exact value
  is \<open>x\<close>: an infinity when the rounded value reaches \<open>2^1024\<close>.
\<close>

definition round_float :: "real \<Rightarrow> real" where
  "round_float x =
     (let u = 2 powi (float_exponent x - 52) in of_int (round_half_even (x / u)) * u)"

definition to_float :: "real \<Rightarrow> pyfloat" where
  "to_float x =
     (let r = round_float x in
      if 2 ^ 1024 \<le> r then PInf else if r \<le> - (2 ^ 1024) then NInf else Fin r)"

fun py_neg :: "pyfloat \<Rightarrow> pyfloat" where
  "py_neg (Fin x) = Fin (- x)"
| "py_neg PInf = NInf"
| "py_neg NInf = PInf"
| "py_neg NaN = NaN"

fun py_abs :: "pyfloat \<Rightarrow> pyfloat" where
  "py_abs (Fin x) = Fin \<bar>x\<bar>"
| "py_abs PInf = PInf"
| "py_abs NInf = PInf"
| "py_abs NaN = NaN"

fun py_add :: "pyfloat \<Rightarrow> pyfloat \<Rightarrow> pyfloat" where
  "py_add (Fin x) (Fin y) = to_float (x + y)"
| "py_add NaN b = NaN"
| "py_add a NaN = NaN"
| "py_add PInf NInf = NaN"
| "py_add NInf PInf = NaN"
| "py_add PInf b = PInf"
| "py_add a PInf = PInf"
| "py_add NInf b = NInf"
| "py_add a NInf = NInf"

definition py_sub :: "pyfloat \<Rightarrow> pyfloat \<Rightarrow> pyfloat" where
  "py_sub a b = py_add a (py_neg b)"

text \<open>\<^verbatim>\<open>a < b\<close>: false whenever an operand is NaN.\<close>

fun py_lt :: "pyfloat \<Rightarrow> pyfloat \<Rightarrow> bool" where
  "py_lt (Fin x) (Fin y) = (x < y)"
| "py_lt (Fin x) PInf = True"
| "py_lt NInf (Fin y) = True"
| "py_lt NInf PInf = True"
| "py_lt a b = False"

text \<open>\<^verbatim>\<open>a / b\<close>: ZeroDivisionError for a zero divisor, whatever the dividend.\<close>

fun py_truediv :: "pyfloat \<Rightarrow> pyfloat \<Rightarrow> py_error + pyfloat" where
  "py_truediv a (Fin y) =
     (if y = 0 then Inl ZeroDivisionError
      else Inr (case a of
                  Fin x \<Rightarrow> to_float (x / y)
                | PInf \<Rightarrow> (if 0 < y then PInf else NInf)
                | NInf \<Rightarrow> (if 0 < y then NInf else PInf)
                | NaN \<Rightarrow> NaN))"
| "py_truediv (Fin x) PInf = Inr (Fin 0)"
| "py_truediv (Fin x) NInf = Inr (Fin 0)"
| "py_truediv a b = Inr NaN"

text \<open>
  The builtin \<^verbatim>\<open>sum\<close> on floats: the items are added from left to right, starting from
  0 and rounding each partial sum (CPython before 3.12; the compensation term that later
  versions add to the total is not modelled).
\<close>

definition py_sum :: "pyfloat list \<Rightarrow> pyfloat" where
  "py_sum xs = foldl py_add (Fin 0) xs"

subsection \<open>The random generator\<close>

type_synonym rng = "nat \<Rightarrow> real"

text \<open>\<^verbatim>\<open>random.random()\<close>: the next uniform draw.\<close>

definition random_random :: "rng \<Rightarrow> real \<times> rng" where
  "random_random g = (g 0, \<lambda>n. g (Suc n))"

text \<open>
  \<^verbatim>\<open>random.randint(a, b)\<close> raises ValueError on an empty range. Which integer of
  \<open>a..b\<close> the library picks is fixed here as the draw scaled to the range.
\<close>

definition random_randint :: "int \<Rightarrow> int \<Rightarrow> rng \<Rightarrow> (py_error + int) \<times> rng" where
  "random_randint a b g =
     (if b < a then (Inl ValueError, g)
      else (case random_random g of
              (u, g') \<Rightarrow> (Inr (a + \<lfloor>u * of_int (b - a + 1)\<rfloor>), g')))"

text \<open>
  \<^verbatim>\<open>random.choice(seq)\<close> raises IndexError on an empty sequence. For a draw in \<open>[0, 1)\<close>
  the index is in range without the \<open>min\<close>.
\<close>

definition random_choice :: "'a list \<Rightarrow> rng \<Rightarrow> (py_error + 'a) \<times> rng" where
  "random_choice xs g =
     (if xs = [] then (Inl IndexError, g)
      else (case random_random g of
              (u, g') \<Rightarrow>
                (Inr (xs ! min (length xs - 1) (nat \<lfloor>u * of_nat (length xs)\<rfloor>)), g')))"

subsection \<open>Dates\<close>

definition is_leap :: "int \<Rightarrow> bool" where
  "is_leap y = (y mod 4 = 0 \<and> (y mod 100 \<noteq> 0 \<or> y mod 400 = 0))"

definition days_in_month :: "int \<Rightarrow> int \<Rightarrow> int" where
  "days_in_month y m =
     (if m = 2 then (if is_leap y then 29 else 28)
      else if m = 4 \<or> m = 6 \<or> m = 9 \<or> m = 11 then 30 else 31)"

definition days_before_year :: "int \<Rightarrow> int" where
  "days_before_year y =
     (let z = y - 1 in z * 365 + z div 4 - z div 100 + z div 400)"

definition days_before_month :: "int \<Rightarrow> int \<Rightarrow> int" where
  "days_before_month y m = sum_list (map (days_in_month y) [1..m - 1])"

definition ymd2ord :: "int \<Rightarrow> int \<Rightarrow> int \<Rightarrow> int" where
  "ymd2ord y m d = days_before_year y + days_before_month y m + d"

text \<open>\<^verbatim>\<open>date(year, month, day)\<close>: ValueError outside the calendar.\<close>

definition mk_date :: "int \<Rightarrow> int \<Rightarrow> int \<Rightarrow> py_error + int" where
  "mk_date y m d =
     (if 1 \<le> y \<and> y \<le> 9999 \<and> 1 \<le> m \<and> m \<le> 12 \<and> 1 \<le> d \<and> d \<le> days_in_month y m
      then Inr (ymd2ord y m d) else Inl ValueError)"

record env =
  today_year :: int
  today_month :: int
  today_day :: int
  now :: int  \<comment> \<open>the reading of \<^verbatim>\<open>datetime.now()\<close>\<close>

definition today :: "env \<Rightarrow> int" where
  "today e = ymd2ord (today_year e) (today_month e) (today_day e)"

subsection \<open>Config\<close>

record config =
  population_size :: int
  min_age :: int
  max_age :: int
  seed :: "int option"
  output_format :: string
  gender_ratio :: "(string \<times> pyfloat) list"  \<comment> \<open>a dict, in insertion order\<close>
  max_workers :: int
  generate_only_living_patients :: bool

definition lower_char :: "char \<Rightarrow> char" where
  "lower_char c =
     (let n = (of_char c :: nat) in if 65 \<le> n \<and> n \<le> 90 then char_of (n + 32) else c)"

definition lower :: "string \<Rightarrow> string" where
  "lower s = map lower_char s"

text \<open>The test of line 71, \<^verbatim>\<open>abs(total - 1.0) > 0.001\<close>.\<close>

definition not_normalized :: "pyfloat \<Rightarrow> bool" where
  "not_normalized tot = py_lt (to_float (1 / 1000)) (py_abs (py_sub tot (Fin 1)))"

text \<open>
  The loop of lines 73 and 74, \<^verbatim>\<open>self.gender_ratio[key] /= total\<close> for every key: the
  first division that raises ends the construction.
\<close>

fun divide_all :: "pyfloat \<Rightarrow> (string \<times> pyfloat) list \<Rightarrow> py_error + (string \<times> pyfloat) list" where
  "divide_all tot [] = Inr []"
| "divide_all tot ((k, v) # kvs) =
     (case py_truediv v tot of
        Inl err \<Rightarrow> Inl err
      | Inr q \<Rightarrow> (case divide_all tot kvs of
                    Inl err \<Rightarrow> Inl err
                  | Inr qs \<Rightarrow> Inr ((k, q) # qs)))"

text \<open>
  \<^verbatim>\<open>Config.__post_init__\<close>. The path handling and \<^verbatim>\<open>os.makedirs\<close> are file-system
  effects outside the model. The seeding of the global generator happens before the
  validation, so it also happens when the validation raises. Dividing by a zero total
  raises ZeroDivisionError at the first key.
\<close>

definition post_init :: "(int \<Rightarrow> rng) \<Rightarrow> config \<Rightarrow> rng \<Rightarrow> (py_error + config) \<times> rng" where
  "post_init mt c g =
     (let g' = (case seed c of None \<Rightarrow> g | Some s \<Rightarrow> mt s) in
      if lower (output_format c) \<notin> set [''fhir'', ''json'', ''csv'']
      then (Inl ValueError, g')
      else
        (let total = py_sum (map snd (gender_ratio c)) in
         if not_normalized total
         then (case divide_all total (gender_ratio c) of
                 Inl err \<Rightarrow> (Inl err, g')
               | Inr gr \<Rightarrow> (Inr (c\<lparr>gender_ratio := gr\<rparr>), g'))
         else (Inr c, g')))"

subsection \<open>Module definitions\<close>

text \<open>
  A module definition is a Python dict; the fields are the keys the engine reads
  (\<open>None\<close>: key absent), together with the transition keys the specification speaks of.
  \<^verbatim>\<open>Generator._process_module\<close> iterates \<^verbatim>\<open>module["states"]\<close> and calls \<^verbatim>\<open>.get\<close> on each
  element, so the states are a list of dicts.
\<close>

record state_def =
  s_name :: "string option"
  s_type :: "string option"
  direct_transition_probability :: "real option"
  direct_transition :: "string option"
  distributed_transition :: "(real \<times> string) list option"  \<comment> \<open>weight, target\<close>

record module_def =
  m_name :: "string option"
  m_priority :: "int option"
  m_remarks :: "string option"
  m_probability :: "real option"
  m_required_states :: "string list option"
  m_states :: "state_def list option"
  m_initial :: "string option"

text \<open>
  \<^verbatim>\<open>ModuleLoader.load_modules\<close>. The file system maps a directory path to its module
  definition files (file name, parsed definition). The second component is the log.
\<close>

type_synonym directory = "(string \<times> module_def) list"

definition load_modules ::
  "(string \<Rightarrow> directory option) \<Rightarrow> string \<Rightarrow> (py_error + module_def list) \<times> string list" where
  "load_modules fs module_path =
     (if fs module_path = None
      then (Inr [], [''Module path does not exist''])
      else (Inr [], []))"

text \<open>
  The structural validity of the specification (section 4.1): an initial state that
  exists, no dangling transition target, weights that are non-negative with a positive
  total. It follows the specification's words; no source function computes it.
\<close>

definition state_names :: "module_def \<Rightarrow> string list" where
  "state_names m =
     (case m_states m of None \<Rightarrow> []
      | Some ss \<Rightarrow> concat (map (\<lambda>s. case s_name s of None \<Rightarrow> [] | Some n \<Rightarrow> [n]) ss))"

definition state_targets :: "state_def \<Rightarrow> string list" where
  "state_targets s =
     (case direct_transition s of None \<Rightarrow> [] | Some t \<Rightarrow> [t]) @
     (case distributed_transition s of None \<Rightarrow> [] | Some ws \<Rightarrow> map snd ws)"

definition weights_ok :: "state_def \<Rightarrow> bool" where
  "weights_ok s =
     (case distributed_transition s of None \<Rightarrow> True
      | Some ws \<Rightarrow> list_all (\<lambda>(w, t). 0 \<le> w) ws \<and> 0 < sum_list (map fst ws))"

definition spec_structurally_valid :: "module_def \<Rightarrow> bool" where
  "spec_structurally_valid m =
     (case m_initial m of None \<Rightarrow> False
      | Some i \<Rightarrow>
          i \<in> set (state_names m) \<and>
          (case m_states m of None \<Rightarrow> True
           | Some ss \<Rightarrow>
               list_all (\<lambda>s. list_all (\<lambda>t. t \<in> set (state_names m)) (state_targets s)
                            \<and> weights_ok s) ss))"

subsection \<open>Patients\<close>

datatype gender = MALE | FEMALE

datatype race = WHITE | BLACK | ASIAN | NATIVE | HISPANIC | OTHER

text \<open>
  The fields of \<^verbatim>\<open>Patient\<close> that generation sets, and the record lists. The fields
  left out (\<^verbatim>\<open>marital_status\<close>, \<^verbatim>\<open>education_level\<close>, ...) keep their defaults.
\<close>

record patient =
  patient_id :: string
  created_at :: int
  first_name :: string
  last_name :: string
  p_gender :: gender
  p_race :: race
  ethnicity :: string
  birth_date :: int
  death_date :: "int option"
  income :: int
  p_state :: string
  city :: string
  zip_code :: string
  address :: string
  conditions :: "string list"
  encounters :: "string list"
  medications :: "string list"
  procedures :: "string list"
  observations :: "string list"
  is_alive :: bool

subsection \<open>Formatting integers\<close>

function dec_digits :: "nat \<Rightarrow> string" where
  "dec_digits n =
     (if n < 10 then [char_of (48 + n)]
      else dec_digits (n div 10) @ [char_of (48 + n mod 10)])"
  by pat_completeness auto
termination
  by (relation "measure id") auto

text \<open>\<^verbatim>\<open>str(i)\<close> and the format \<^verbatim>\<open>{i:06d}\<close> (sign first, then zeros up to width 6).\<close>

definition str_int :: "int \<Rightarrow> string" where
  "str_int i = (if i < 0 then ''-'' else []) @ dec_digits (nat \<bar>i\<bar>)"

definition fmt_06d :: "int \<Rightarrow> string" where
  "fmt_06d i =
     (let sgn = (if i < 0 then ''-'' else []); ds = dec_digits (nat \<bar>i\<bar>)
      in sgn @ replicate (6 - length sgn - length ds) (CHR ''0'') @ ds)"

subsection \<open>Demographics\<close>

definition DEFAULT_RACE_DISTRIBUTION :: "(string \<times> real) list" where
  "DEFAULT_RACE_DISTRIBUTION =
     [(''white'', 60 / 100), (''black'', 13 / 100), (''asian'', 6 / 100),
      (''native'', 2 / 100), (''hispanic'', 18 / 100), (''other'', 1 / 100)]"

definition DEFAULT_FIRST_NAMES_MALE :: "string list" where
  "DEFAULT_FIRST_NAMES_MALE =
     [''James'', ''John'', ''Robert'', ''Michael'', ''William'', ''David'', ''Richard'',
      ''Joseph'', ''Thomas'', ''Charles'', ''Christopher'', ''Daniel'', ''Matthew'',
      ''Anthony'', ''Mark'', ''Donald'', ''Steven'', ''Paul'', ''Andrew'', ''Joshua'']"

definition DEFAULT_FIRST_NAMES_FEMALE :: "string list" where
  "DEFAULT_FIRST_NAMES_FEMALE =
     [''Mary'', ''Patricia'', ''Jennifer'', ''Linda'', ''Elizabeth'', ''Barbara'', ''Susan'',
      ''Jessica'', ''Sarah'', ''Karen'', ''Nancy'', ''Lisa'', ''Margaret'', ''Betty'',
      ''Sandra'', ''Ashley'', ''Dorothy'', ''Kimberly'', ''Emily'', ''Donna'']"

definition DEFAULT_LAST_NAMES :: "string list" where
  "DEFAULT_LAST_NAMES =
     [''Smith'', ''Johnson'', ''Williams'', ''Brown'', ''Jones'', ''Miller'', ''Davis'',
      ''Garcia'', ''Rodriguez'', ''Wilson'', ''Martinez'', ''Anderson'', ''Taylor'',
      ''Thomas'', ''Hernandez'', ''Moore'', ''Martin'', ''Jackson'', ''Thompson'', ''White'']"

definition DEFAULT_LOCATIONS :: "(string \<times> string \<times> string) list" where
  "DEFAULT_LOCATIONS =
     [(''Massachusetts'', ''Boston'', ''02108''),
      (''New York'', ''New York'', ''10001''),
      (''California'', ''Los Angeles'', ''90001''),
      (''Texas'', ''Houston'', ''77001''),
      (''Florida'', ''Miami'', ''33101'')]"

text \<open>\<^verbatim>\<open>Generator\<close> builds \<^verbatim>\<open>Demographics()\<close> without a data directory: the defaults apply.\<close>

definition get_first_name :: "string \<Rightarrow> rng \<Rightarrow> (py_error + string) \<times> rng" where
  "get_first_name gcode g =
     (if gcode = ''M'' then random_choice DEFAULT_FIRST_NAMES_MALE g
      else random_choice DEFAULT_FIRST_NAMES_FEMALE g)"

definition get_last_name :: "race \<Rightarrow> rng \<Rightarrow> (py_error + string) \<times> rng" where
  "get_last_name r g = random_choice DEFAULT_LAST_NAMES g"

definition get_location :: "rng \<Rightarrow> (py_error + string \<times> string \<times> string) \<times> rng" where
  "get_location g = random_choice DEFAULT_LOCATIONS g"

definition get_ethnicity :: "race \<Rightarrow> string" where
  "get_ethnicity r = (if r = HISPANIC then ''hispanic'' else ''non-hispanic'')"

text \<open>
  The loop of \<^verbatim>\<open>_randomly_select_race\<close>: the first key whose cumulative ratio exceeds the
  draw, \<open>None\<close> when the loop falls through.
\<close>

fun select_cumulative :: "real \<Rightarrow> real \<Rightarrow> (string \<times> real) list \<Rightarrow> string option" where
  "select_cumulative rnd cumulative [] = None"
| "select_cumulative rnd cumulative ((k, ratio) # kvs) =
     (if rnd < cumulative + ratio then Some k
      else select_cumulative rnd (cumulative + ratio) kvs)"

text \<open>
  The same loop in \<^verbatim>\<open>_randomly_select_gender\<close>, over the configured ratios: the
  cumulative sum is a float sum, and a NaN or an infinity among the ratios takes part in
  it.
\<close>

fun select_gender :: "real \<Rightarrow> pyfloat \<Rightarrow> (string \<times> pyfloat) list \<Rightarrow> string option" where
  "select_gender rnd cumulative [] = None"
| "select_gender rnd cumulative ((k, ratio) # kvs) =
     (if py_lt (Fin rnd) (py_add cumulative ratio) then Some k
      else select_gender rnd (py_add cumulative ratio) kvs)"

definition randomly_select_gender :: "config \<Rightarrow> rng \<Rightarrow> string \<times> rng" where
  "randomly_select_gender c g =
     (case random_random g of
        (rnd, g') \<Rightarrow>
          (case select_gender rnd (Fin 0) (gender_ratio c) of
             Some k \<Rightarrow> (k, g') | None \<Rightarrow> (''F'', g')))"

definition race_of_name :: "string \<Rightarrow> race" where
  "race_of_name n =
     (let l = lower n in
      if l = ''white'' then WHITE
      else if l = ''black'' then BLACK
      else if l = ''asian'' then ASIAN
      else if l = ''native'' then NATIVE
      else if l = ''hispanic'' then HISPANIC
      else OTHER)"

definition randomly_select_race :: "rng \<Rightarrow> race \<times> rng" where
  "randomly_select_race g =
     (case random_random g of
        (rnd, g') \<Rightarrow>
          (case select_cumulative rnd 0 DEFAULT_RACE_DISTRIBUTION of
             Some n \<Rightarrow> (race_of_name n, g') | None \<Rightarrow> (OTHER, g')))"

text \<open>Sequencing of steps that may raise and that advance the generator.\<close>

definition bind_r ::
  "(py_error + 'a) \<times> rng \<Rightarrow> ('a \<Rightarrow> rng \<Rightarrow> (py_error + 'b) \<times> rng) \<Rightarrow> (py_error + 'b) \<times> rng" where
  "bind_r r f = (case r of (Inl err, g) \<Rightarrow> (Inl err, g) | (Inr x, g) \<Rightarrow> f x g)"

text \<open>The month and day of birth (lines 96 to 104 of \<^verbatim>\<open>generator.py\<close>).\<close>

definition birth_month_day :: "env \<Rightarrow> int \<Rightarrow> rng \<Rightarrow> (py_error + int \<times> int) \<times> rng" where
  "birth_month_day e birth_year g =
     (if birth_year = today_year e
      then bind_r (random_randint 1 (today_month e) g) (\<lambda>birth_month g1.
             bind_r (random_randint 1
                       (if birth_month = today_month e then today_day e else 28) g1)
               (\<lambda>birth_day g2. (Inr (birth_month, birth_day), g2)))
      else bind_r (random_randint 1 12 g) (\<lambda>birth_month g1.
             bind_r (random_randint 1 28 g1)
               (\<lambda>birth_day g2. (Inr (birth_month, birth_day), g2))))"

definition generate_demographics ::
  "env \<Rightarrow> config \<Rightarrow> int \<Rightarrow> rng \<Rightarrow> (py_error + patient) \<times> rng" where
  "generate_demographics e c i g0 =
     (case randomly_select_gender c g0 of (gcode, g1) \<Rightarrow>
      case randomly_select_race g1 of (rc, g2) \<Rightarrow>
      bind_r (random_randint (today_year e - max_age c) (today_year e - min_age c) g2)
        (\<lambda>birth_year g3.
      bind_r (birth_month_day e birth_year g3) (\<lambda>(birth_month, birth_day) g4.
      bind_r (mk_date birth_year birth_month birth_day, g4) (\<lambda>bdate g5.
      bind_r (get_first_name gcode g5) (\<lambda>fname g6.
      bind_r (get_last_name rc g6) (\<lambda>lname g7.
      bind_r (random_randint 0 100000 g7) (\<lambda>income_level g8.
      bind_r (get_location g8) (\<lambda>(st, ci, zp) g9.
      bind_r (random_randint 100 9999 g9) (\<lambda>house g10.
        (Inr \<lparr>patient_id = ''p'' @ fmt_06d i,
              created_at = now e,
              first_name = fname,
              last_name = lname,
              p_gender = (if gcode = ''M'' then MALE else FEMALE),
              p_race = rc,
              ethnicity = get_ethnicity rc,
              birth_date = bdate,
              death_date = None,
              income = income_level,
              p_state = st,
              city = ci,
              zip_code = zp,
              address = str_int house @ '' Main St'',
              conditions = [], encounters = [], medications = [],
              procedures = [], observations = [],
              is_alive = True\<rparr>, g10))))))))))"

subsection \<open>The patient simulation\<close>

definition priority :: "module_def \<Rightarrow> int" where
  "priority m = (case m_priority m of None \<Rightarrow> 0 | Some k \<Rightarrow> k)"

text \<open>
  \<^verbatim>\<open>sorted(self.modules, key=lambda m: m.get("priority", 0))\<close>. Python's \<^verbatim>\<open>sorted\<close> is
  stable, and so is the insertion sort \<open>sort_key\<close>.
\<close>

definition sorted_modules :: "module_def list \<Rightarrow> module_def list" where
  "sorted_modules ms = sort_key priority ms"

text \<open>The substring test \<^verbatim>\<open>needle in haystack\<close>.\<close>

fun starts_with :: "string \<Rightarrow> string \<Rightarrow> bool" where
  "starts_with [] hay = True"
| "starts_with (c # cs) [] = False"
| "starts_with (c # cs) (h # hs) = (c = h \<and> starts_with cs hs)"

fun contains :: "string \<Rightarrow> string \<Rightarrow> bool" where
  "contains needle [] = (needle = [])"
| "contains needle (h # hs) = (starts_with needle (h # hs) \<or> contains needle hs)"

definition gender_blocked :: "module_def \<Rightarrow> patient \<Rightarrow> bool" where
  "gender_blocked m p =
     (case m_remarks m of None \<Rightarrow> False
      | Some r \<Rightarrow>
          (contains ''female only'' (lower r) \<and> p_gender p \<noteq> FEMALE) \<or>
          (contains ''male only'' (lower r) \<and> p_gender p \<noteq> MALE))"

definition required_ok :: "module_def \<Rightarrow> string list \<Rightarrow> bool" where
  "required_ok m active_conditions =
     (case m_required_states m of None \<Rightarrow> True
      | Some rs \<Rightarrow> list_all (\<lambda>s. s \<in> set active_conditions) rs)"

text \<open>\<^verbatim>\<open>Generator._should_run_module\<close>; \<open>active_conditions\<close> holds the keys of the dict.\<close>

definition should_run_module ::
  "module_def \<Rightarrow> patient \<Rightarrow> string list \<Rightarrow> rng \<Rightarrow> bool \<times> rng" where
  "should_run_module m p active_conditions g =
     (if gender_blocked m p then (False, g)
      else (case m_probability m of
              None \<Rightarrow> (required_ok m active_conditions, g)
            | Some pr \<Rightarrow>
                (case random_random g of
                   (u, g') \<Rightarrow>
                     if pr < u then (False, g')
                     else (required_ok m active_conditions, g'))))"

text \<open>
  \<^verbatim>\<open>Generator._process_module\<close>: the loop over the states. Only a state whose type is
  \<^verbatim>\<open>"Death"\<close> is acted on; the first successful draw ends the loop (\<^verbatim>\<open>break\<close>).
\<close>

definition death_prob :: "state_def \<Rightarrow> real" where
  "death_prob s = (case direct_transition_probability s of None \<Rightarrow> 1 / 100 | Some x \<Rightarrow> x)"

fun process_states :: "state_def list \<Rightarrow> patient \<Rightarrow> int \<Rightarrow> rng \<Rightarrow> patient \<times> rng" where
  "process_states [] p current_date g = (p, g)"
| "process_states (s # ss) p current_date g =
     (if s_type s = Some ''Death''
      then (case random_random g of
              (u, g') \<Rightarrow>
                if u < death_prob s
                then (p\<lparr>is_alive := False, death_date := Some current_date\<rparr>, g')
                else process_states ss p current_date g')
      else process_states ss p current_date g)"

definition process_module :: "module_def \<Rightarrow> patient \<Rightarrow> int \<Rightarrow> rng \<Rightarrow> patient \<times> rng" where
  "process_module m p current_date g =
     (case m_states m of None \<Rightarrow> (p, g)
      | Some ss \<Rightarrow> process_states ss p current_date g)"

text \<open>
  The inner loop of \<^verbatim>\<open>_run_modules\<close> (\<^verbatim>\<open>for module in modules\<close>) at one time step.
  Besides the patient and the generator it returns a log that is not program state: the
  modules visited, in order, each with the answer of \<open>should_run_module\<close> (a module
  with \<open>True\<close> was processed and its name added to \<^verbatim>\<open>executed_modules\<close>).
\<close>

fun for_modules ::
  "module_def list \<Rightarrow> string list \<Rightarrow> int \<Rightarrow> patient \<Rightarrow> rng
     \<Rightarrow> patient \<times> rng \<times> (module_def \<times> bool) list" where
  "for_modules [] ac current_date p g = (p, g, [])"
| "for_modules (m # ms) ac current_date p g =
     (case should_run_module m p ac g of
        (True, g1) \<Rightarrow>
          (case process_module m p current_date g1 of
             (p2, g2) \<Rightarrow>
               (case for_modules ms ac current_date p2 g2 of
                  (p3, g3, vs) \<Rightarrow> (p3, g3, (m, True) # vs)))
      | (False, g1) \<Rightarrow>
          (case for_modules ms ac current_date p g1 of
             (p3, g3, vs) \<Rightarrow> (p3, g3, (m, False) # vs)))"

text \<open>
  One entry of the log per iteration of the \<^verbatim>\<open>while\<close> loop: a step before birth is
  skipped, any other step evaluates the modules.
\<close>

datatype step = Skipped int | Evaluated int "(module_def \<times> bool) list"

fun step_date :: "step \<Rightarrow> int" where
  "step_date (Skipped d) = d"
| "step_date (Evaluated d vs) = d"

fun step_visits :: "step \<Rightarrow> (module_def \<times> bool) list" where
  "step_visits (Skipped d) = []"
| "step_visits (Evaluated d vs) = vs"

fun is_evaluated :: "step \<Rightarrow> bool" where
  "is_evaluated (Skipped d) = False"
| "is_evaluated (Evaluated d vs) = True"

text \<open>
  The \<^verbatim>\<open>while\<close> loop of \<^verbatim>\<open>_run_modules\<close>, with \<open>time_step_days = 7\<close> and
  \<open>active_conditions\<close> the empty dict throughout (nothing ever adds to it). The result
  carries \<open>current_date\<close> at loop exit and the log of the iterations, oldest first.
\<close>

function sim_loop ::
  "module_def list \<Rightarrow> int \<Rightarrow> int \<Rightarrow> patient \<Rightarrow> rng \<Rightarrow> step list
     \<Rightarrow> int \<times> patient \<times> rng \<times> step list" where
  "sim_loop ms end_date current_date p g tr =
     (if current_date \<le> end_date \<and> is_alive p
      then (if current_date - birth_date p < 0
            then sim_loop ms end_date (current_date + 7) p g (tr @ [Skipped current_date])
            else (case for_modules ms [] current_date p g of
                    (p', g', vs) \<Rightarrow>
                      sim_loop ms end_date (current_date + 7) p' g'
                        (tr @ [Evaluated current_date vs])))
      else (current_date, p, g, tr))"
  by pat_completeness auto
termination
  by (relation "measure (\<lambda>(ms, end_date, current_date, p, g, tr). nat (end_date + 1 - current_date))")
     auto

text \<open>
  Lines 233 to 237 of \<^verbatim>\<open>generator.py\<close>: a dead patient without a death date gets one
  within the last time step. \<^verbatim>\<open>random.randint(0, 7)\<close> cannot raise; its \<open>Inl\<close> branch is
  there for totality only.
\<close>

definition record_death :: "int \<Rightarrow> patient \<Rightarrow> rng \<Rightarrow> patient \<times> rng" where
  "record_death current_date p g =
     (if \<not> is_alive p \<and> death_date p = None
      then (case random_randint 0 7 g of
              (Inr k, g') \<Rightarrow> (p\<lparr>death_date := Some (current_date - k)\<rparr>, g')
            | (Inl err, g') \<Rightarrow> (p, g'))
      else (p, g))"

text \<open>\<^verbatim>\<open>Generator._run_modules\<close>.\<close>

definition run_modules ::
  "env \<Rightarrow> module_def list \<Rightarrow> patient \<Rightarrow> rng \<Rightarrow> patient \<times> rng \<times> step list" where
  "run_modules e ms p g =
     (case sim_loop (sorted_modules ms) (today e) (birth_date p) p g [] of
        (current_date, p', g', tr) \<Rightarrow>
          (case record_death current_date p' g' of
             (p'', g'') \<Rightarrow> (p'', g'', tr)))"

subsection \<open>Generating one patient\<close>

text \<open>
  Lines 53 to 56: \<^verbatim>\<open>random.seed\<close> accepts any integer, \<^verbatim>\<open>np.random.seed\<close> raises
  ValueError outside \<open>0 .. 2^32 - 1\<close> (after \<^verbatim>\<open>random\<close> has been seeded).
\<close>

definition seed_patient :: "(int \<Rightarrow> rng) \<Rightarrow> config \<Rightarrow> int \<Rightarrow> rng \<Rightarrow> (py_error + unit) \<times> rng" where
  "seed_patient mt c i g =
     (case seed c of None \<Rightarrow> (Inr (), g)
      | Some s \<Rightarrow>
          if 0 \<le> s + i \<and> s + i < 2 ^ 32 then (Inr (), mt (s + i))
          else (Inl ValueError, mt (s + i)))"

text \<open>
  \<^verbatim>\<open>Generator.generate_patient\<close>. The function calls itself when a dead patient is not
  wanted; the first argument after \<open>mt\<close> is the number of nested calls the interpreter
  still allows, and the call that exceeds it raises RecursionError.
\<close>

fun generate_patient ::
  "(int \<Rightarrow> rng) \<Rightarrow> nat \<Rightarrow> env \<Rightarrow> config \<Rightarrow> module_def list \<Rightarrow> int \<Rightarrow> rng
     \<Rightarrow> (py_error + patient) \<times> rng" where
  "generate_patient mt 0 e c ms i g = (Inl RecursionError, g)"
| "generate_patient mt (Suc depth) e c ms i g =
     (case seed_patient mt c i g of
        (Inl err, g1) \<Rightarrow> (Inl err, g1)
      | (Inr u, g1) \<Rightarrow>
          (case generate_demographics e c i g1 of
             (Inl err, g2) \<Rightarrow> (Inl err, g2)
           | (Inr p, g2) \<Rightarrow>
               (case run_modules e ms p g2 of
                  (p', g3, tr) \<Rightarrow>
                    if generate_only_living_patients c \<and> \<not> is_alive p'
                    then generate_patient mt depth e c ms i g3
                    else (Inr p', g3))))"

subsection \<open>Generating the population\<close>

text \<open>
  The sequential path of \<^verbatim>\<open>Engine._generate_population\<close>: a list comprehension in one
  process, so the generator state passes from one patient to the next and the first
  exception ends the comprehension. \<open>clock i\<close> is the clock reading while ordinal \<open>i\<close>
  is generated.
\<close>

fun generate_sequential ::
  "(int \<Rightarrow> rng) \<Rightarrow> nat \<Rightarrow> (nat \<Rightarrow> env) \<Rightarrow> config \<Rightarrow> module_def list \<Rightarrow> nat list \<Rightarrow> rng
     \<Rightarrow> (py_error + patient list) \<times> rng" where
  "generate_sequential mt depth clock c ms [] g = (Inr [], g)"
| "generate_sequential mt depth clock c ms (i # ords) g =
     (case generate_patient mt depth (clock i) c ms (int i) g of
        (Inl err, g') \<Rightarrow> (Inl err, g')
      | (Inr p, g') \<Rightarrow>
          (case generate_sequential mt depth clock c ms ords g' of
             (Inl err, g'') \<Rightarrow> (Inl err, g'')
           | (Inr ps, g'') \<Rightarrow> (Inr (p # ps), g'')))"

text \<open>
  The pooled path. \<open>order\<close> is the order in which the futures complete (what
  \<^verbatim>\<open>as_completed\<close> yields) and \<open>wrng i\<close> the state of the generator of the worker process
  that runs ordinal \<open>i\<close> when it starts that task. A patient is appended, an exception
  is logged; the progress messages are left out.
\<close>

definition collect ::
  "(int \<Rightarrow> rng) \<Rightarrow> nat \<Rightarrow> (nat \<Rightarrow> env) \<Rightarrow> config \<Rightarrow> module_def list \<Rightarrow> (nat \<Rightarrow> rng)
     \<Rightarrow> nat \<Rightarrow> patient list \<times> py_error list \<Rightarrow> patient list \<times> py_error list" where
  "collect mt depth clock c ms wrng i acc =
     (case fst (generate_patient mt depth (clock i) c ms (int i) (wrng i)) of
        Inr p \<Rightarrow> (fst acc @ [p], snd acc)
      | Inl err \<Rightarrow> (fst acc, snd acc @ [err]))"

definition generate_pool ::
  "(int \<Rightarrow> rng) \<Rightarrow> nat \<Rightarrow> (nat \<Rightarrow> env) \<Rightarrow> config \<Rightarrow> module_def list \<Rightarrow> nat list
     \<Rightarrow> (nat \<Rightarrow> rng) \<Rightarrow> patient list \<times> py_error list" where
  "generate_pool mt depth clock c ms order wrng =
     fold (collect mt depth clock c ms wrng) order ([], [])"

text \<open>
  \<^verbatim>\<open>Engine._generate_population\<close>: the patients or the exception that ended the run, and
  the errors logged. \<^verbatim>\<open>ProcessPoolExecutor\<close> raises ValueError for a worker count below 1.
\<close>

definition generate_population ::
  "(int \<Rightarrow> rng) \<Rightarrow> nat \<Rightarrow> (nat \<Rightarrow> env) \<Rightarrow> config \<Rightarrow> module_def list \<Rightarrow> nat list
     \<Rightarrow> (nat \<Rightarrow> rng) \<Rightarrow> rng \<Rightarrow> (py_error + patient list) \<times> py_error list" where
  "generate_population mt depth clock c ms order wrng g =
     (if population_size c \<le> 10 \<or> max_workers c = 1
      then (fst (generate_sequential mt depth clock c ms [0..<nat (population_size c)] g), [])
      else if max_workers c \<le> 0 then (Inl ValueError, [])
      else (case generate_pool mt depth clock c ms order wrng of
              (ps, errs) \<Rightarrow> (Inr ps, errs)))"


subsection \<open>Inputs used in the examples\<close>

text \<open>A generator state given by its first draws, all later draws being 0.\<close>

definition draws :: "real list \<Rightarrow> rng" where
  "draws xs = (\<lambda>n. if n < length xs then xs ! n else 0)"

text \<open>A seeding function for the examples: every seed gives the all-zero sequence.\<close>

definition mt_zero :: "int \<Rightarrow> rng" where
  "mt_zero k = draws []"

definition default_config :: config where
  "default_config =
     \<lparr>population_size = 100, min_age = 0, max_age = 100, seed = None,
      output_format = ''fhir'',
      gender_ratio = [(''M'', to_float (49 / 100)), (''F'', to_float (51 / 100))],
      max_workers = 4, generate_only_living_patients = False\<rparr>"

definition new_year_2024 :: env where
  "new_year_2024 = \<lparr>today_year = 2024, today_month = 1, today_day = 1, now = 0\<rparr>"

definition const_clock :: "env \<Rightarrow> nat \<Rightarrow> env" where
  "const_clock e i = e"

definition same_rng :: "rng \<Rightarrow> nat \<Rightarrow> rng" where
  "same_rng g i = g"

text \<open>The patient that \<open>generate_demographics\<close> builds on 2024-01-01 from all-zero draws
  with \<open>max_age = 0\<close>: born that day.\<close>

definition newborn :: patient where
  "newborn =
     \<lparr>patient_id = ''p000000'', created_at = 0, first_name = ''James'',
      last_name = ''Smith'', p_gender = MALE, p_race = WHITE, ethnicity = ''non-hispanic'',
      birth_date = 738886, death_date = None, income = 0, p_state = ''Massachusetts'',
      city = ''Boston'', zip_code = ''02108'', address = ''100 Main St'',
      conditions = [], encounters = [], medications = [], procedures = [],
      observations = [], is_alive = True\<rparr>"

definition empty_module :: module_def where
  "empty_module =
     \<lparr>m_name = None, m_priority = None, m_remarks = None, m_probability = None,
      m_required_states = None, m_states = None, m_initial = None\<rparr>"

definition empty_state :: state_def where
  "empty_state =
     \<lparr>s_name = None, s_type = None, direct_transition_probability = None,
      direct_transition = None, distributed_transition = None\<rparr>"

text \<open>A module with one Death state of probability 1.\<close>

definition certain_death :: module_def where
  "certain_death =
     empty_module\<lparr>m_name := Some ''death'',
       m_states := Some [empty_state\<lparr>s_name := Some ''Die'', s_type := Some ''Death'',
                                     direct_transition_probability := Some 1\<rparr>]\<rparr>"

text \<open>A directory holding one definition without an initial state.\<close>

definition bad_module :: module_def where
  "bad_module = empty_module\<lparr>m_name := Some ''bad'', m_states := Some []\<rparr>"

definition bad_fs :: "string \<Rightarrow> directory option" where
  "bad_fs path = (if path = ''modules'' then Some [(''bad.json'', bad_module)] else None)"

subsection \<open>Notions used in the statements and proofs\<close>

declare sim_loop.simps [simp del]

text \<open>What a successful Death draw at date \<open>d\<close> does to the patient.\<close>

definition killed_at :: "int \<Rightarrow> patient \<Rightarrow> patient" where
  "killed_at d p = p\<lparr>is_alive := False, death_date := Some d\<rparr>"

text \<open>
  What holds of every logged iteration of a loop that started at date \<open>lo\<close> with end
  date \<open>hi\<close>, for a patient born on \<open>bd\<close>, over the module list \<open>ms\<close>.
\<close>

definition step_ok :: "module_def list \<Rightarrow> int \<Rightarrow> int \<Rightarrow> int \<Rightarrow> step \<Rightarrow> bool" where
  "step_ok ms bd lo hi s =
     (lo \<le> step_date s \<and> step_date s \<le> hi \<and>
      (if is_evaluated s then bd \<le> step_date s \<and> map fst (step_visits s) = ms
       else step_date s < bd))"

text \<open>Two modules of equal priority, given in the order b, a.\<close>

definition mod_a :: module_def where
  "mod_a = empty_module\<lparr>m_name := Some ''a'', m_priority := Some 1\<rparr>"

definition mod_b :: module_def where
  "mod_b = empty_module\<lparr>m_name := Some ''b'', m_priority := Some 1\<rparr>"

text \<open>A clock one week after \<open>new_year_2024\<close>.\<close>

definition second_week_2024 :: env where
  "second_week_2024 = \<lparr>today_year = 2024, today_month = 1, today_day = 8, now = 0\<rparr>"

text \<open>Configurations: a seed and newborn patients only; the same with dead patients refused;
  a seed at the end of the range NumPy accepts; an age range that is empty.\<close>

definition seeded_config :: config where
  "seeded_config = default_config\<lparr>seed := Some 0, max_age := 0\<rparr>"

definition living_config :: config where
  "living_config = seeded_config\<lparr>generate_only_living_patients := True\<rparr>"

definition overflow_config :: config where
  "overflow_config = default_config\<lparr>population_size := 2, seed := Some 4294967295, max_age := 0\<rparr>"


text \<open>A state with three weighted transitions, weights 2, 1, 1, and a module holding it.\<close>

definition branch_211 :: state_def where
  "branch_211 =
     empty_state\<lparr>s_name := Some ''Branch'', s_type := Some ''Simple'',
       distributed_transition := Some [(2, ''A''), (1, ''B''), (1, ''C'')]\<rparr>"

definition branching :: module_def where
  "branching = empty_module\<lparr>m_name := Some ''branching'', m_states := Some [branch_211],
                 m_initial := Some ''Branch''\<rparr>"

text \<open>A gender ratio of two values whose sum overflows the float range, and one off 1.\<close>

definition huge_ratio_config :: config where
  "huge_ratio_config =
     default_config\<lparr>gender_ratio := [(''M'', Fin (2 ^ 1023)), (''F'', Fin (2 ^ 1023))]\<rparr>"

definition even_ratio_config :: config where
  "even_ratio_config = default_config\<lparr>gender_ratio := [(''M'', Fin 1), (''F'', Fin 1)]\<rparr>"

text \<open>
  A ratio is a finite float that is not negative; the exact total of a gender ratio is
  the sum of its values as reals, without rounding.
\<close>

fun is_ratio :: "pyfloat \<Rightarrow> bool" where
  "is_ratio (Fin x) = (0 \<le> x)"
| "is_ratio a = False"

fun float_value :: "pyfloat \<Rightarrow> real" where
  "float_value (Fin x) = x"
| "float_value a = 0"

definition exact_total :: "(string \<times> pyfloat) list \<Rightarrow> real" where
  "exact_total gr = sum_list (map (float_value \<circ> snd) gr)"

section \<open>Properties\<close>

subsection \<open>Floats\<close>

text \<open>The rounding error of \<open>round_float\<close>, and the values it leaves alone.\<close>

lemma rhe_bound: "\<bar>of_int (round_half_even y) - y\<bar> \<le> 1 / 2"
  unfolding round_half_even_def Let_def by (auto; linarith)

lemma rhe_int [simp]: "round_half_even (of_int m) = m"
  by (simp add: round_half_even_def)

lemma rhe_numeral [simp]: "round_half_even (numeral n) = numeral n"
  using rhe_int [of "numeral n"] by simp

lemma rhe_nonneg: "0 \<le> y \<Longrightarrow> 0 \<le> round_half_even y"
  unfolding round_half_even_def Let_def by (auto; linarith)

lemma two_powi_pos [simp]: "0 < (2::real) powi k"
  by (simp add: power_int_def)

lemma two_powi_nat: "0 \<le> k \<Longrightarrow> (2::real) powi k = 2 ^ nat k"
  by (simp add: power_int_def)

lemma bitlen_floor_eq:
  fixes y :: real
  assumes "2 powi e \<le> y" and "y < 2 powi (e + 1)" and "0 \<le> e + K"
  shows "bitlen \<lfloor>y * 2 powi K\<rfloor> = e + K + 1"
proof -
  let ?n = "\<lfloor>y * 2 powi K\<rfloor>"
  have "(2::real) powi (e + K) \<le> y * 2 powi K"
    using assms(1) by (simp add: power_int_add)
  then have "real_of_int (2 ^ nat (e + K)) \<le> y * 2 powi K"
    using assms(3) by (simp add: two_powi_nat)
  then have lo: "2 ^ nat (e + K) \<le> ?n"
    by (simp only: le_floor_iff)
  have "y * 2 powi K < (2::real) powi (e + 1 + K)"
    using assms(2) by (simp add: power_int_add)
  then have "y * 2 powi K < real_of_int (2 ^ nat (e + K + 1))"
    using assms(3) by (simp add: two_powi_nat add.commute add.left_commute)
  then have hi: "?n < 2 ^ nat (e + K + 1)"
    by (simp only: floor_less_iff)
  have "bitlen ?n \<le> e + K + 1"
    using hi assms(3) by (simp add: bitlen_le_iff_power)
  moreover have "e + K + 1 \<le> bitlen ?n"
  proof -
    have "nat (e + K + 1) - 1 = nat (e + K)" using assms(3) by simp
    then show ?thesis using lo by (simp add: bitlen_ge_iff_power)
  qed
  ultimately show ?thesis by simp
qed

lemma bitlen_floor_small:
  fixes y :: real
  assumes "y < 2 powi e" and "0 \<le> e + K"
  shows "bitlen \<lfloor>y * 2 powi K\<rfloor> \<le> e + K"
proof -
  have "y * 2 powi K < (2::real) powi (e + K)"
    using assms(1) by (simp add: power_int_add)
  then have "y * 2 powi K < real_of_int (2 ^ nat (e + K))"
    using assms(2) by (simp add: two_powi_nat)
  then have "\<lfloor>y * 2 powi K\<rfloor> < 2 ^ nat (e + K)"
    by (simp only: floor_less_iff)
  then show ?thesis using assms(2) by (simp add: bitlen_le_iff_power)
qed

lemma bitlen_floor_le:
  fixes y :: real
  assumes "0 < bitlen \<lfloor>y * 2 powi K\<rfloor>"
  shows "2 powi (bitlen \<lfloor>y * 2 powi K\<rfloor> - 1 - K) \<le> y"
proof -
  let ?n = "\<lfloor>y * 2 powi K\<rfloor>"
  have "0 < ?n" using assms bitlen_eq_zero_iff [of ?n] by linarith
  then have "2 ^ nat (bitlen ?n - 1) \<le> ?n" using bitlen_bounds by blast
  then have "real_of_int (2 ^ nat (bitlen ?n - 1)) \<le> y * 2 powi K"
    by (simp only: le_floor_iff)
  then have "(2::real) powi (bitlen ?n - 1) \<le> y * 2 powi K"
    using assms by (simp add: two_powi_nat)
  then have "(2::real) powi (bitlen ?n - 1) * 2 powi (- K) \<le> y * 2 powi K * 2 powi (- K)"
    by (rule mult_right_mono) simp
  moreover have "(2::real) powi (bitlen ?n - 1) * 2 powi (- K) = 2 powi (bitlen ?n - 1 - K)"
    by (simp flip: power_int_add)
  moreover have "y * 2 powi K * 2 powi (- K) = y"
    by (simp add: power_int_minus)
  ultimately show ?thesis by simp
qed

lemma float_exponent_alt:
  "float_exponent x = max (bitlen \<lfloor>\<bar>x\<bar> * 2 powi 1074\<rfloor> - 1075) (- 1022)"
  by (simp add: float_exponent_def power_int_def)

lemma float_exponent_eq:
  assumes "2 powi e \<le> \<bar>x\<bar>" and "\<bar>x\<bar> < 2 powi (e + 1)" and "- 1022 \<le> e"
  shows "float_exponent x = e"
proof -
  have "0 \<le> e + 1074" using assms(3) by simp
  from bitlen_floor_eq [OF assms(1) assms(2) this]
  have "bitlen \<lfloor>\<bar>x\<bar> * 2 powi 1074\<rfloor> = e + 1075" by simp
  then show ?thesis unfolding float_exponent_alt using assms(3) by simp
qed

lemma float_exponent_subnormal:
  assumes "\<bar>x\<bar> < 2 powi (- 1022)"
  shows "float_exponent x = - 1022"
proof -
  have "bitlen \<lfloor>\<bar>x\<bar> * 2 powi 1074\<rfloor> \<le> - 1022 + 1074"
    by (rule bitlen_floor_small [OF assms]) simp
  then show ?thesis unfolding float_exponent_alt by simp
qed

lemma float_exponent_le:
  assumes "2 powi (- 1022) \<le> \<bar>x\<bar>"
  shows "2 powi float_exponent x \<le> \<bar>x\<bar>"
proof (cases "- 1022 \<le> bitlen \<lfloor>\<bar>x\<bar> * 2 powi 1074\<rfloor> - 1075")
  case False
  then have "float_exponent x = - 1022" unfolding float_exponent_alt by simp
  then show ?thesis using assms by simp
next
  case True
  then have e: "float_exponent x = bitlen \<lfloor>\<bar>x\<bar> * 2 powi 1074\<rfloor> - 1 - 1074"
    unfolding float_exponent_alt by simp
  have "0 < bitlen \<lfloor>\<bar>x\<bar> * 2 powi 1074\<rfloor>" using True by simp
  then show ?thesis unfolding e by (rule bitlen_floor_le)
qed

lemma round_float_err: "\<bar>round_float x - x\<bar> \<le> 2 powi (float_exponent x - 53)"
proof -
  define u :: real where "u = 2 powi (float_exponent x - 52)"
  have u: "0 < u" by (simp add: u_def)
  have "round_float x - x = u * (of_int (round_half_even (x / u)) - x / u)"
    using u by (simp add: round_float_def u_def [symmetric] algebra_simps)
  then have "\<bar>round_float x - x\<bar> = u * \<bar>of_int (round_half_even (x / u)) - x / u\<bar>"
    using u by (simp add: abs_mult)
  also have "\<dots> \<le> u * (1 / 2)"
    using u rhe_bound [of "x / u"] by (intro mult_left_mono) simp_all
  also have "\<dots> = 2 powi (float_exponent x - 53)"
    by (simp add: u_def power_int_diff)
  finally show ?thesis .
qed

lemma round_float_rel: "\<bar>round_float x - x\<bar> \<le> \<bar>x\<bar> / 2 ^ 53 + 2 powi (- 1075)"
proof (cases "2 powi (- 1022) \<le> \<bar>x\<bar>")
  case True
  have "\<bar>round_float x - x\<bar> \<le> 2 powi (float_exponent x - 53)" by (rule round_float_err)
  also have "\<dots> = 2 powi float_exponent x / 2 ^ 53" by (simp add: power_int_diff)
  also have "\<dots> \<le> \<bar>x\<bar> / 2 ^ 53"
    using float_exponent_le [OF True] by (simp add: divide_right_mono)
  also have "\<dots> \<le> \<bar>x\<bar> / 2 ^ 53 + 2 powi (- 1075)" by simp
  finally show ?thesis .
next
  case False
  then have "float_exponent x = - 1022" by (simp add: float_exponent_subnormal)
  then have "\<bar>round_float x - x\<bar> \<le> 2 powi (- 1075)" using round_float_err [of x] by simp
  moreover have "0 \<le> \<bar>x\<bar> / 2 ^ 53" by simp
  ultimately show ?thesis by linarith
qed

lemma round_float_nonneg: "0 \<le> x \<Longrightarrow> 0 \<le> round_float x"
  by (simp add: round_float_def Let_def rhe_nonneg)

lemma round_float_0 [simp]: "round_float 0 = 0"
  by (simp add: round_float_def round_half_even_def)

lemma round_float_fix:
  assumes "\<bar>m\<bar> < 2 ^ 53" and "- 1074 \<le> k"
  shows "round_float (of_int m * 2 powi k) = of_int m * 2 powi k"
proof -
  define x :: real where "x = of_int m * 2 powi k"
  have le: "float_exponent x - 52 \<le> k"
  proof (cases "2 powi (- 1022) \<le> \<bar>x\<bar>")
    case False
    then have "float_exponent x = - 1022" by (simp add: float_exponent_subnormal)
    then show ?thesis using assms(2) by simp
  next
    case True
    have "2 powi float_exponent x \<le> \<bar>x\<bar>" by (rule float_exponent_le [OF True])
    also have "\<bar>x\<bar> = \<bar>of_int m\<bar> * 2 powi k" by (simp add: x_def abs_mult)
    also have "\<dots> < 2 ^ 53 * 2 powi k"
      using assms(1) by (intro mult_strict_right_mono) (simp_all flip: of_int_abs)
    also have "\<dots> = 2 powi (53 + k)" by (simp add: power_int_add)
    finally have lt: "(2::real) powi float_exponent x < 2 powi (53 + k)" .
    have "float_exponent x < 53 + k"
    proof (rule ccontr)
      assume "\<not> float_exponent x < 53 + k"
      then have "53 + k \<le> float_exponent x" by simp
      then have "(2::real) powi (53 + k) \<le> 2 powi float_exponent x"
        by (intro power_int_increasing) simp_all
      with lt show False by simp
    qed
    then show ?thesis by simp
  qed
  define e where "e = float_exponent x"
  define j where "j = nat (k - (e - 52))"
  have j: "k = (e - 52) + int j" using le by (simp add: j_def e_def)
  have pk: "(2::real) powi k = 2 powi (e - 52) * 2 powi int j"
    by (subst j) (simp add: power_int_add)
  have "real_of_int m * 2 powi k / 2 powi (e - 52) = of_int m * 2 powi (int j)"
    by (simp add: pk)
  also have "\<dots> = of_int (m * 2 ^ j)" by (simp add: power_int_def)
  finally have "round_half_even (of_int m * 2 powi k / 2 powi (e - 52)) = m * 2 ^ j"
    by (simp only: rhe_int)
  then have "round_float x = of_int (m * 2 ^ j) * 2 powi (e - 52)"
    by (simp add: round_float_def e_def [symmetric]) (simp add: x_def)
  also have "\<dots> = of_int m * (2 powi (int j) * 2 powi (e - 52))"
    by (simp add: power_int_def)
  also have "\<dots> = of_int m * 2 powi k"
    by (simp add: pk mult.commute)
  finally show ?thesis by (simp add: x_def)
qed


text \<open>The float values used in the examples.\<close>

lemma to_float_0 [simp]: "to_float 0 = Fin 0"
  by (simp add: to_float_def)

lemma to_float_1: "to_float 1 = Fin 1"
  using round_float_fix [of 1 0] by (simp add: to_float_def)

lemma to_float_minus_1: "to_float (- 1) = Fin (- 1)"
  using round_float_fix [of "- 1" 0] by (simp add: to_float_def)

lemma to_float_2: "to_float 2 = Fin 2"
  using round_float_fix [of 2 0] by (simp add: to_float_def)

lemma to_float_half: "to_float (1 / 2) = Fin (1 / 2)"
  using round_float_fix [of 1 "- 1"] by (simp add: to_float_def power_int_minus)

lemma to_float_49: "to_float (49 / 100) = Fin (2206763817411543 / 4503599627370496)"
  by (simp add: to_float_def round_float_def float_exponent_eq [of "- 2"] power_int_minus
        round_half_even_def)


lemma to_float_49_again:
  "to_float (2206763817411543 / 4503599627370496) = Fin (2206763817411543 / 4503599627370496)"
  using round_float_fix [of 2206763817411543 "- 52"]
  by (simp add: to_float_def power_int_minus)

lemma to_float_milli: "to_float (1 / 1000) = Fin (1152921504606847 / 1152921504606846976)"
  by (simp add: to_float_def round_float_def float_exponent_eq [of "- 10"] power_int_minus
        round_half_even_def)

lemma to_float_overflow: "to_float (2 ^ 1023 + 2 ^ 1023) = PInf"
  using round_float_fix [of 1 1024] by (simp add: to_float_def)

lemma to_float_huge: "to_float (2 ^ 1023) = Fin (2 ^ 1023)"
  using round_float_fix [of 1 1023] by (simp add: to_float_def)

lemma select_default_ratio: "py_lt (Fin 0) (py_add (Fin 0) (to_float (49 / 100)))"
  by (simp add: to_float_49 to_float_49_again)


text \<open>A float operation on values in range yields a finite float.\<close>

lemma eta_eq: "(2::real) powi (- 1075) = 1 / 2 ^ 1075"
  by (simp add: power_int_minus inverse_eq_divide)

lemma round_float_rel_nonneg:
  assumes "0 \<le> x"
  shows "\<bar>round_float x - x\<bar> \<le> x / 2 ^ 53 + 1 / 2 ^ 1075"
  using round_float_rel [of x] assms unfolding eta_eq by simp

lemma to_float_finite:
  assumes "0 \<le> x" and "x \<le> 3 * 2 ^ 1022"
  shows "to_float x = Fin (round_float x)"
proof -
  have "\<bar>round_float x - x\<bar> \<le> x / 2 ^ 53 + 1 / 2 ^ 1075"
    by (rule round_float_rel_nonneg [OF assms(1)])
  then have "round_float x < 2 ^ 1024" using assms by simp
  moreover have "0 \<le> round_float x" by (rule round_float_nonneg [OF assms(1)])
  ultimately show ?thesis by (simp add: to_float_def Let_def)
qed

subsection \<open>Configuration\<close>

lemma is_ratio_cases: "is_ratio a \<Longrightarrow> \<exists>x. a = Fin x \<and> 0 \<le> x"
  by (cases a) auto

lemma sum_ratios_nonneg: "list_all is_ratio xs \<Longrightarrow> 0 \<le> sum_list (map float_value xs)"
  by (induction xs) (auto dest: is_ratio_cases)

lemma exact_total_values: "exact_total gr = sum_list (map float_value (map snd gr))"
  by (simp add: exact_total_def)

lemma ratios_values: "list_all (is_ratio \<circ> snd) gr = list_all is_ratio (map snd gr)"
  by (simp add: list.pred_map)

text \<open>
  The float sum of up to \<open>2^40\<close> ratios is finite and close to their exact sum, as long
  as the exact sum does not exceed \<open>2^1023\<close>.
\<close>

lemma foldl_add_accurate:
  fixes B :: real
  assumes B: "0 \<le> B" "B \<le> 2 ^ 1023"
  shows "list_all is_ratio xs \<Longrightarrow> 0 \<le> s
     \<Longrightarrow> \<bar>s - S\<bar> \<le> of_nat k * (B / 2 ^ 52 + 2 / 2 ^ 1075)
     \<Longrightarrow> S + sum_list (map float_value xs) \<le> B \<Longrightarrow> k + length xs \<le> 2 ^ 40
     \<Longrightarrow> \<exists>t. foldl py_add (Fin s) xs = Fin t \<and> 0 \<le> t \<and>
           \<bar>t - (S + sum_list (map float_value xs))\<bar>
             \<le> of_nat (k + length xs) * (B / 2 ^ 52 + 2 / 2 ^ 1075)"
proof (induction xs arbitrary: s S k)
  case Nil
  then show ?case by simp
next
  case (Cons a xs)
  define A :: real where "A = B / 2 ^ 52 + 2 / 2 ^ 1075"
  define \<eta> :: real where "\<eta> = 1 / 2 ^ 1075"
  have A: "A = B / 2 ^ 52 + 2 * \<eta>" by (simp add: A_def \<eta>_def)
  have \<eta>: "0 \<le> \<eta>" "2 ^ 41 * \<eta> \<le> 1" by (simp_all add: \<eta>_def)
  from Cons.prems(1) obtain v where v: "a = Fin v" "0 \<le> v" and rest: "list_all is_ratio xs"
    using is_ratio_cases by auto
  have nn: "0 \<le> sum_list (map float_value xs)" by (rule sum_ratios_nonneg [OF rest])
  have "real k \<le> 2 ^ 40"
  proof -
    have "k \<le> 2 ^ 40" using Cons.prems(5) by simp
    then have "real k \<le> real (2 ^ 40)" by (simp only: of_nat_le_iff)
    then show ?thesis by simp
  qed
  moreover have "0 \<le> A" using B(1) \<eta>(1) by (simp add: A)
  ultimately have kA: "real k * A \<le> 2 ^ 40 * A" by (rule mult_right_mono)
  have err: "\<bar>s - S\<bar> \<le> real k * A" using Cons.prems(3) by (simp add: A_def)
  have SB: "S + v \<le> B" using Cons.prems(4) nn by (simp add: v)
  define y where "y = s + v"
  have y0: "0 \<le> y" using Cons.prems(2) v(2) by (simp add: y_def)
  have yB: "y \<le> B + B / 4096 + 2 ^ 41 * \<eta>"
    using err kA SB by (simp add: y_def A) 
  have "y \<le> 3 * 2 ^ 1022" using yB B(2) \<eta>(2) by simp
  then have tf: "to_float y = Fin (round_float y)" by (rule to_float_finite [OF y0])
  have r0: "0 \<le> round_float y" by (rule round_float_nonneg [OF y0])
  have "\<bar>round_float y - y\<bar> \<le> y / 2 ^ 53 + \<eta>"
    using round_float_rel_nonneg [OF y0] by (simp add: \<eta>_def)
  moreover have "y / 2 ^ 53 + \<eta> \<le> A" using yB B(1) \<eta>(1) by (simp add: A)
  moreover have "\<bar>y - (S + v)\<bar> \<le> real k * A" using err by (simp add: y_def)
  ultimately have "\<bar>round_float y - (S + v)\<bar> \<le> real k * A + A" by linarith
  moreover have "real k * A + A = of_nat (Suc k) * A" by (simp add: algebra_simps)
  ultimately have "\<bar>round_float y - (S + v)\<bar> \<le> of_nat (Suc k) * A" by simp
  then have e1: "\<bar>round_float y - (S + v)\<bar> \<le> of_nat (Suc k) * (B / 2 ^ 52 + 2 / 2 ^ 1075)"
    by (simp only: A_def)
  have s1: "S + v + sum_list (map float_value xs) \<le> B" using Cons.prems(4) by (simp add: v)
  have l1: "Suc k + length xs \<le> 2 ^ 40" using Cons.prems(5) by simp
  from Cons.IH [OF rest r0 e1 s1 l1] show ?case
    by (simp add: v tf [unfolded y_def] y_def add.assoc)
qed

lemma py_sum_accurate:
  assumes "list_all is_ratio xs" and "length xs \<le> 2 ^ 40"
    and "sum_list (map float_value xs) \<le> 2 ^ 1023"
  shows "\<exists>t. py_sum xs = Fin t \<and> 0 \<le> t \<and>
           \<bar>t - sum_list (map float_value xs)\<bar>
             \<le> sum_list (map float_value xs) / 4096 + 1 / 2 ^ 1034"
proof -
  define T where "T = sum_list (map float_value xs)"
  have T: "0 \<le> T" unfolding T_def by (rule sum_ratios_nonneg [OF assms(1)])
  have "\<exists>t. foldl py_add (Fin 0) xs = Fin t \<and> 0 \<le> t \<and>
           \<bar>t - (0 + sum_list (map float_value xs))\<bar>
             \<le> of_nat (0 + length xs) * (T / 2 ^ 52 + 2 / 2 ^ 1075)"
    by (rule foldl_add_accurate [OF T _ assms(1)]) (use assms in \<open>simp_all add: T_def\<close>)
  then obtain t where t: "py_sum xs = Fin t" "0 \<le> t"
    "\<bar>t - T\<bar> \<le> real (length xs) * (T / 2 ^ 52 + 2 / 2 ^ 1075)"
    by (auto simp: py_sum_def T_def)
  have "real (length xs) \<le> real (2 ^ 40)" using assms(2) by (simp only: of_nat_le_iff)
  then have "real (length xs) \<le> 2 ^ 40" by simp
  moreover have "0 \<le> T / 2 ^ 52 + 2 / 2 ^ 1075" using T by simp
  ultimately have "real (length xs) * (T / 2 ^ 52 + 2 / 2 ^ 1075)
                     \<le> 2 ^ 40 * (T / 2 ^ 52 + 2 / 2 ^ 1075)"
    by (rule mult_right_mono)
  also have "\<dots> = T / 4096 + 1 / 2 ^ 1034" by simp
  finally have "\<bar>t - T\<bar> \<le> T / 4096 + 1 / 2 ^ 1034" using t(3) by linarith
  then show ?thesis using t(1) t(2) by (auto simp: T_def)
qed

text \<open>
  Dividing ratios by a positive float that is at least half their exact sum gives ratios
  again, each the rounded quotient.
\<close>

lemma divide_all_ratios:
  assumes "0 < t"
  shows "list_all (is_ratio \<circ> snd) gr \<Longrightarrow> exact_total gr \<le> 2 * t
     \<Longrightarrow> \<exists>gr'. divide_all (Fin t) gr = Inr gr' \<and> map fst gr' = map fst gr
           \<and> list_all (is_ratio \<circ> snd) gr'
           \<and> \<bar>exact_total gr' - exact_total gr / t\<bar>
               \<le> exact_total gr / t / 2 ^ 53 + of_nat (length gr) * (1 / 2 ^ 1075)"
proof (induction gr)
  case Nil
  show ?case by (simp add: exact_total_def)
next
  case (Cons a gr)
  define \<eta> :: real where "\<eta> = 1 / 2 ^ 1075"
  obtain k x where a: "a = (k, x)" by (cases a)
  from Cons.prems(1) have x: "is_ratio x" and rest: "list_all (is_ratio \<circ> snd) gr"
    unfolding a by (simp_all add: o_def)
  from is_ratio_cases [OF x] obtain v where v: "x = Fin v" "0 \<le> v" by blast
  have tot: "exact_total (a # gr) = v + exact_total gr" by (simp add: exact_total_def a v)
  have nn: "0 \<le> exact_total gr"
    unfolding exact_total_values by (rule sum_ratios_nonneg) (use rest in \<open>simp add: ratios_values\<close>)
  have "exact_total gr \<le> 2 * t" using Cons.prems(2) tot v(2) by simp
  from Cons.IH [OF rest this] obtain gr' where IH: "divide_all (Fin t) gr = Inr gr'"
    "map fst gr' = map fst gr" "list_all (is_ratio \<circ> snd) gr'"
    "\<bar>exact_total gr' - exact_total gr / t\<bar>
       \<le> exact_total gr / t / 2 ^ 53 + of_nat (length gr) * \<eta>"
    unfolding \<eta>_def by blast
  define q where "q = v / t"
  have q0: "0 \<le> q" using v(2) assms by (simp add: q_def)
  have "v \<le> 2 * t" using Cons.prems(2) tot nn by simp
  then have q2: "q \<le> 2" using assms by (simp add: q_def pos_divide_le_eq)
  have tf: "to_float q = Fin (round_float q)" by (rule to_float_finite [OF q0]) (use q2 in simp)
  have rq: "0 \<le> round_float q" by (rule round_float_nonneg [OF q0])
  have eq: "\<bar>round_float q - q\<bar> \<le> q / 2 ^ 53 + \<eta>"
    using round_float_rel_nonneg [OF q0] by (simp add: \<eta>_def)
  have d: "divide_all (Fin t) (a # gr) = Inr ((k, Fin (round_float q)) # gr')"
    using assms IH(1) tf by (simp add: a v q_def)
  have e1: "exact_total ((k, Fin (round_float q)) # gr') = round_float q + exact_total gr'"
    by (simp add: exact_total_def)
  have e2: "exact_total (a # gr) / t = q + exact_total gr / t"
    by (simp add: tot q_def add_divide_distrib)
  have "\<bar>exact_total ((k, Fin (round_float q)) # gr') - exact_total (a # gr) / t\<bar>
          \<le> (q / 2 ^ 53 + \<eta>) + (exact_total gr / t / 2 ^ 53 + of_nat (length gr) * \<eta>)"
    unfolding e1 e2 using eq IH(4) by linarith
  also have "\<dots> = exact_total (a # gr) / t / 2 ^ 53 + of_nat (length (a # gr)) * \<eta>"
    unfolding e2 by (simp add: add_divide_distrib algebra_simps)
  finally have "\<bar>exact_total ((k, Fin (round_float q)) # gr') - exact_total (a # gr) / t\<bar>
          \<le> exact_total (a # gr) / t / 2 ^ 53 + of_nat (length (a # gr)) * (1 / 2 ^ 1075)"
    by (simp only: \<eta>_def)
  moreover have "map fst ((k, Fin (round_float q)) # gr') = map fst (a # gr)"
    by (simp add: a IH(2))
  moreover have "list_all (is_ratio \<circ> snd) ((k, Fin (round_float q)) # gr')"
    by (simp add: rq IH(3))
  ultimately show ?case using d by blast
qed



text \<open>
  C10 as stated fails: the two ratios \<open>2^1023\<close> have a positive sum, but their float
  total is infinite, every ratio is divided to 0, and the constructed Config holds ratios
  that sum to 0 (as reals and as floats, so they still fail the tolerance test), against
  which the gender selection returns its default.
\<close>

theorem gender_ratio_counterexample:
  "list_all (is_ratio \<circ> snd) (gender_ratio huge_ratio_config)
   \<and> 0 < exact_total (gender_ratio huge_ratio_config)
   \<and> py_sum (map snd (gender_ratio huge_ratio_config)) = PInf
   \<and> post_init mt_zero huge_ratio_config (draws [])
       = (Inr (huge_ratio_config\<lparr>gender_ratio := [(''M'', Fin 0), (''F'', Fin 0)]\<rparr>), draws [])
   \<and> exact_total [(''M'', Fin 0), (''F'', Fin 0)] = 0
   \<and> not_normalized (py_sum (map snd [(''M'', Fin 0), (''F'', Fin 0)]))
   \<and> fst (randomly_select_gender
             (huge_ratio_config\<lparr>gender_ratio := [(''M'', Fin 0), (''F'', Fin 0)]\<rparr>) (draws []))
       = ''F''"
proof -
  have s: "py_sum (map snd (gender_ratio huge_ratio_config)) = PInf"
    by (simp add: huge_ratio_config_def py_sum_def to_float_huge [simplified]
          to_float_overflow [simplified])
  have p: "post_init mt_zero huge_ratio_config (draws [])
       = (Inr (huge_ratio_config\<lparr>gender_ratio := [(''M'', Fin 0), (''F'', Fin 0)]\<rparr>), draws [])"
  proof -
    have f: "seed huge_ratio_config = None" "lower (output_format huge_ratio_config) = ''fhir''"
      by (simp_all add: huge_ratio_config_def default_config_def lower_def lower_char_def)
    have d: "divide_all PInf (gender_ratio huge_ratio_config)
               = Inr [(''M'', Fin 0), (''F'', Fin 0)]"
      by (simp add: huge_ratio_config_def)
    show ?thesis
      by (simp add: post_init_def s f d not_normalized_def py_sub_def to_float_milli)
  qed
  show ?thesis
    by (intro conjI s p)
      (simp_all add: huge_ratio_config_def exact_total_def randomly_select_gender_def
         random_random_def draws_def not_normalized_def py_sum_def py_sub_def to_float_milli
         to_float_minus_1)
qed

text \<open>
  C10, as amended. Take a Config that was constructed from at most \<open>2^40\<close> gender ratios,
  each a finite float that is not negative, whose exact sum lies between \<open>2^-1000\<close> and
  \<open>2^1023\<close>. It has the same keys in the same order and its ratios are finite and not
  negative. When the float total failed the tolerance test of the constructor, the new
  ratios sum, as reals, to 1 within 0.001; otherwise the Config is unchanged.
\<close>

theorem gender_ratio_normalized:
  assumes "post_init mt c g = (Inr c', g')"
    and "list_all (is_ratio \<circ> snd) (gender_ratio c)"
    and "length (gender_ratio c) \<le> 2 ^ 40"
    and "1 / 2 ^ 1000 \<le> exact_total (gender_ratio c)"
    and "exact_total (gender_ratio c) \<le> 2 ^ 1023"
  shows "map fst (gender_ratio c') = map fst (gender_ratio c)
       \<and> list_all (is_ratio \<circ> snd) (gender_ratio c')
       \<and> (if not_normalized (py_sum (map snd (gender_ratio c)))
          then \<bar>exact_total (gender_ratio c') - 1\<bar> \<le> 1 / 1000 else c' = c)"
proof -
  define gr where "gr = gender_ratio c"
  define T where "T = exact_total gr"
  have ratios: "list_all (is_ratio \<circ> snd) gr" using assms(2) by (simp only: gr_def)
  have xs: "list_all is_ratio (map snd gr)" using ratios by (simp only: ratios_values)
  have Tv: "T = sum_list (map float_value (map snd gr))" by (simp only: T_def exact_total_values)
  have len: "length (map snd gr) \<le> 2 ^ 40" using assms(3) by (simp add: gr_def)
  have up: "sum_list (map float_value (map snd gr)) \<le> 2 ^ 1023"
    using assms(5) by (simp only: gr_def exact_total_values)
  from py_sum_accurate [OF xs len up] obtain t where t: "py_sum (map snd gr) = Fin t" "0 \<le> t"
    "\<bar>t - T\<bar> \<le> T / 4096 + 1 / 2 ^ 1034"
    unfolding Tv by blast
  have T0: "1 / 2 ^ 1000 \<le> T" using assms(4) by (simp only: T_def gr_def)
  have Tpos: "0 < T" using T0 by simp
  have "1 / 2 ^ 1034 \<le> T / 2 ^ 34" using T0 by simp
  then have tT: "\<bar>t - T\<bar> \<le> T / 4000" using t(3) Tpos by simp
  have tpos: "0 < t" using tT Tpos by linarith
  show ?thesis
  proof (cases "not_normalized (Fin t)")
    case False
    have "c' = c"
      using assms(1) False t(1) by (auto simp: post_init_def Let_def gr_def split: if_splits)
    then show ?thesis using assms(2) False t(1) by (simp add: gr_def)
  next
    case True
    have "exact_total gr \<le> 2 * t" using tT Tpos unfolding T_def by linarith
    from divide_all_ratios [OF tpos ratios this] obtain gr' where
      gr': "divide_all (Fin t) gr = Inr gr'" "map fst gr' = map fst gr"
        "list_all (is_ratio \<circ> snd) gr'"
        "\<bar>exact_total gr' - T / t\<bar> \<le> T / t / 2 ^ 53 + of_nat (length gr) * (1 / 2 ^ 1075)"
      unfolding T_def by blast
    have c': "c' = c\<lparr>gender_ratio := gr'\<rparr>"
      using assms(1) True t(1) gr'(1)
      by (auto simp: post_init_def Let_def gr_def split: if_splits)
    define r where "r = T / t"
    define m where "m = real (length gr) * (1 / 2 ^ 1075)"
    have "\<bar>t - T\<bar> / t \<le> T / 4000 / t"
      by (rule divide_right_mono [OF tT]) (use tpos in simp)
    moreover have "\<bar>t - T\<bar> / t = \<bar>1 - r\<bar>"
    proof -
      have "\<bar>1 - r\<bar> = \<bar>(t - T) / t\<bar>" using tpos by (simp add: r_def diff_divide_distrib)
      also have "\<dots> = \<bar>t - T\<bar> / t" using tpos by (simp add: abs_divide)
      finally show ?thesis by simp
    qed
    moreover have "T / 4000 / t = r / 4000" by (simp add: r_def)
    ultimately have r: "\<bar>1 - r\<bar> \<le> r / 4000" by simp
    have "real (length gr) \<le> real (2 ^ 40)"
      using assms(3) unfolding gr_def by (simp only: of_nat_le_iff)
    then have "real (length gr) \<le> 2 ^ 40" by simp
    then have "real (length gr) * (1 / 2 ^ 1075) \<le> 2 ^ 40 * (1 / 2 ^ 1075)"
      by (rule mult_right_mono) simp
    also have "\<dots> = 1 / 2 ^ 1035" by simp
    finally have n: "m \<le> 1 / 2 ^ 1035" by (simp only: m_def)
    have "\<bar>exact_total gr' - r\<bar> \<le> r / 2 ^ 53 + m"
      using gr'(4) by (simp only: r_def m_def)
    moreover have "m \<le> 1 / 10000"
    proof -
      have "(1::real) / 2 ^ 1035 \<le> 1 / 10000" by simp
      then show ?thesis using n by linarith
    qed
    moreover have r2: "r \<le> 4000 / 3999" "4000 / 4001 \<le> r" using r by linarith+
    moreover have "r / 2 ^ 53 \<le> 1 / 10000" using r2(1) by simp
    ultimately have "\<bar>exact_total gr' - 1\<bar> \<le> 1 / 1000" by linarith
    then show ?thesis using c' gr'(2) gr'(3) True t(1) by (simp add: gr_def)
  qed
qed

theorem gender_ratio_normalized_witness:
  "post_init mt_zero even_ratio_config (draws [])
     = (Inr (even_ratio_config\<lparr>gender_ratio := [(''M'', Fin (1 / 2)), (''F'', Fin (1 / 2))]\<rparr>),
        draws [])
   \<and> list_all (is_ratio \<circ> snd) (gender_ratio even_ratio_config)
   \<and> length (gender_ratio even_ratio_config) \<le> 2 ^ 40
   \<and> 1 / 2 ^ 1000 \<le> exact_total (gender_ratio even_ratio_config)
   \<and> exact_total (gender_ratio even_ratio_config) \<le> 2 ^ 1023
   \<and> (map fst (gender_ratio
          (even_ratio_config\<lparr>gender_ratio := [(''M'', Fin (1 / 2)), (''F'', Fin (1 / 2))]\<rparr>))
        = map fst (gender_ratio even_ratio_config)
      \<and> list_all (is_ratio \<circ> snd) (gender_ratio
          (even_ratio_config\<lparr>gender_ratio := [(''M'', Fin (1 / 2)), (''F'', Fin (1 / 2))]\<rparr>))
      \<and> (if not_normalized (py_sum (map snd (gender_ratio even_ratio_config)))
          then \<bar>exact_total (gender_ratio
                  (even_ratio_config\<lparr>gender_ratio := [(''M'', Fin (1 / 2)), (''F'', Fin (1 / 2))]\<rparr>))
                - 1\<bar> \<le> 1 / 1000
          else even_ratio_config\<lparr>gender_ratio := [(''M'', Fin (1 / 2)), (''F'', Fin (1 / 2))]\<rparr>
                 = even_ratio_config))"
proof -
  have h1: "post_init mt_zero even_ratio_config (draws [])
     = (Inr (even_ratio_config\<lparr>gender_ratio := [(''M'', Fin (1 / 2)), (''F'', Fin (1 / 2))]\<rparr>),
        draws [])"
    by (simp add: post_init_def even_ratio_config_def default_config_def lower_def lower_char_def
          not_normalized_def py_sum_def py_sub_def to_float_1 to_float_2 to_float_half
          to_float_milli)
  have h2: "list_all (is_ratio \<circ> snd) (gender_ratio even_ratio_config)"
    by (simp add: even_ratio_config_def)
  have h3: "length (gender_ratio even_ratio_config) \<le> 2 ^ 40"
    by (simp add: even_ratio_config_def)
  have h4: "1 / 2 ^ 1000 \<le> exact_total (gender_ratio even_ratio_config)"
    by (simp add: even_ratio_config_def exact_total_def)
  have h5: "exact_total (gender_ratio even_ratio_config) \<le> 2 ^ 1023"
    by (simp add: even_ratio_config_def exact_total_def)
  show ?thesis
    by (rule conjI [OF h1 conjI [OF h2 conjI [OF h3 conjI [OF h4 conjI [OF h5
          gender_ratio_normalized [OF h1 h2 h3 h4 h5]]]]]])
qed


subsection \<open>Module loading\<close>

text \<open>
  C4, as amended. Loading a module directory never fails and never validates: for every
  file system and every path the catalog returned is empty.
\<close>

theorem load_modules_empty: "fst (load_modules fs module_path) = Inr []"
  by (simp add: load_modules_def)

text \<open>
  C4 as stated fails: the directory exists and holds a structurally invalid definition,
  and loading returns normally with an empty catalog and an empty log.
\<close>

theorem load_modules_counterexample:
  "bad_fs ''modules'' = Some [(''bad.json'', bad_module)]
   \<and> \<not> spec_structurally_valid bad_module
   \<and> load_modules bad_fs ''modules'' = (Inr [], [])"
  by (simp add: bad_fs_def bad_module_def empty_module_def spec_structurally_valid_def
        load_modules_def)

subsection \<open>The simulation loop\<close>

lemma killed_at_idem: "killed_at d (killed_at d p) = killed_at d p"
  by (simp add: killed_at_def)

lemma process_states_effect:
  "process_states ss p d g = (p1, g1) \<Longrightarrow> p1 = p \<or> p1 = killed_at d p"
  by (induction ss arbitrary: g) (auto simp: killed_at_def split: if_splits prod.splits)

lemma process_module_effect:
  "process_module m p d g = (p1, g1) \<Longrightarrow> p1 = p \<or> p1 = killed_at d p"
  by (auto simp: process_module_def split: option.splits dest: process_states_effect)

lemma for_modules_effect:
  "for_modules ms ac d p g = (p1, g1, vs) \<Longrightarrow>
     (p1 = p \<or> p1 = killed_at d p) \<and> map fst vs = ms"
proof (induction ms arbitrary: p g p1 g1 vs)
  case Nil
  then show ?case by simp
next
  case (Cons m ms)
  obtain r ga where sr: "should_run_module m p ac g = (r, ga)" by (cases "should_run_module m p ac g")
  show ?case
  proof (cases r)
    case True
    obtain p2 g2 where pm: "process_module m p d ga = (p2, g2)" by (cases "process_module m p d ga")
    obtain p3 g3 vs3 where fm: "for_modules ms ac d p2 g2 = (p3, g3, vs3)"
      by (cases "for_modules ms ac d p2 g2")
    from Cons.prems sr True pm fm have eq: "p1 = p3" "vs = (m, True) # vs3" by auto
    from Cons.IH [OF fm] have ih: "p3 = p2 \<or> p3 = killed_at d p2" "map fst vs3 = ms" by auto
    from process_module_effect [OF pm] have "p2 = p \<or> p2 = killed_at d p" .
    with ih eq show ?thesis by (auto simp: killed_at_idem)
  next
    case False
    obtain p3 g3 vs3 where fm: "for_modules ms ac d p ga = (p3, g3, vs3)"
      by (cases "for_modules ms ac d p ga")
    from Cons.prems sr False fm have eq: "p1 = p3" "vs = (m, False) # vs3" by auto
    from Cons.IH [OF fm] eq show ?thesis by auto
  qed
qed

lemma sim_loop_stop:
  "\<not> (current_date \<le> end_date \<and> is_alive p) \<Longrightarrow>
     sim_loop ms end_date current_date p g tr = (current_date, p, g, tr)"
  by (subst sim_loop.simps) auto

lemma sim_loop_skip:
  "current_date \<le> end_date \<Longrightarrow> is_alive p \<Longrightarrow> current_date < birth_date p \<Longrightarrow>
     sim_loop ms end_date current_date p g tr =
     sim_loop ms end_date (current_date + 7) p g (tr @ [Skipped current_date])"
  by (subst sim_loop.simps) simp

lemma sim_loop_eval:
  "current_date \<le> end_date \<Longrightarrow> is_alive p \<Longrightarrow> birth_date p \<le> current_date \<Longrightarrow>
     for_modules ms [] current_date p g = (p1, g1, vs) \<Longrightarrow>
     sim_loop ms end_date current_date p g tr =
     sim_loop ms end_date (current_date + 7) p1 g1 (tr @ [Evaluated current_date vs])"
  by (subst sim_loop.simps) simp

lemma step_count:
  "cur \<le> en \<Longrightarrow> int n \<le> max 0 ((en - (cur + 7)) div 7 + 1) \<Longrightarrow>
     int (Suc n) \<le> max 0 ((en - cur) div 7 + 1)"
proof -
  assume a: "cur \<le> en" and b: "int n \<le> max 0 ((en - (cur + 7)) div 7 + 1)"
  have "(en - (cur + 7) + 7) div 7 = (en - (cur + 7)) div 7 + 1" by (rule div_add_self2) simp
  then have c: "(en - (cur + 7)) div 7 = (en - cur) div 7 - 1" by simp
  from a have d: "0 \<le> (en - cur) div 7" by simp
  from b c d show ?thesis by simp
qed

lemma sim_loop_log:
  "sim_loop ms en cur p g tr = (cur', p', g', tr') \<Longrightarrow>
     \<exists>new. tr' = tr @ new \<and> list_all (step_ok ms (birth_date p) cur en) new \<and>
           birth_date p' = birth_date p \<and>
           int (length new) \<le> max 0 ((en - cur) div 7 + 1)"
proof (induction ms en cur p g tr rule: sim_loop.induct)
  case (1 ms en cur p g tr)
  show ?case
  proof (cases "cur \<le> en \<and> is_alive p")
    case False
    with "1.prems" have "tr' = tr" "p' = p" by (simp_all add: sim_loop_stop)
    then show ?thesis by simp
  next
    case go: True
    show ?thesis
    proof (cases "cur - birth_date p < 0")
      case True
      with go "1.prems" have
        "sim_loop ms en (cur + 7) p g (tr @ [Skipped cur]) = (cur', p', g', tr')"
        by (simp add: sim_loop_skip)
      from "1.IH"(1) [OF go True this] obtain new where
        n: "tr' = (tr @ [Skipped cur]) @ new"
           "list_all (step_ok ms (birth_date p) (cur + 7) en) new"
           "birth_date p' = birth_date p"
           "int (length new) \<le> max 0 ((en - (cur + 7)) div 7 + 1)" by blast
      have a: "list_all (step_ok ms (birth_date p) cur en) (Skipped cur # new)"
        using n(2) go True by (auto simp: list_all_iff step_ok_def)
      have b: "int (length (Skipped cur # new)) \<le> max 0 ((en - cur) div 7 + 1)"
        using step_count [OF _ n(4)] go by simp
      from n(1) n(3) a b show ?thesis by (intro exI [of _ "Skipped cur # new"]) simp
    next
      case False
      obtain p1 g1 vs where fm: "for_modules ms [] cur p g = (p1, g1, vs)"
        by (cases "for_modules ms [] cur p g")
      from fm have fm': "(p1, g1, vs) = for_modules ms [] cur p g" by simp
      from for_modules_effect [OF fm] have eff: "birth_date p1 = birth_date p" "map fst vs = ms"
        by (auto simp: killed_at_def)
      from go False fm "1.prems" have
        "sim_loop ms en (cur + 7) p1 g1 (tr @ [Evaluated cur vs]) = (cur', p', g', tr')"
        by (simp add: sim_loop_eval)
      from "1.IH"(2) [OF go False fm' refl this] obtain new where
        n: "tr' = (tr @ [Evaluated cur vs]) @ new"
           "list_all (step_ok ms (birth_date p1) (cur + 7) en) new"
           "birth_date p' = birth_date p1"
           "int (length new) \<le> max 0 ((en - (cur + 7)) div 7 + 1)" by blast
      have a: "list_all (step_ok ms (birth_date p) cur en) (Evaluated cur vs # new)"
        using n(2) go False eff by (auto simp: list_all_iff step_ok_def)
      have b: "int (length (Evaluated cur vs # new)) \<le> max 0 ((en - cur) div 7 + 1)"
        using step_count [OF _ n(4)] go by simp
      from n(1) n(3) eff a b show ?thesis by (intro exI [of _ "Evaluated cur vs # new"]) simp
    qed
  qed
qed


lemma record_death_log: "record_death cur p g = (p', g') \<Longrightarrow> birth_date p' = birth_date p"
  by (auto simp: record_death_def split: if_splits prod.splits sum.splits)

lemma run_modules_log:
  assumes "run_modules e ms p g = (p', g', tr)"
  shows "list_all (step_ok (sorted_modules ms) (birth_date p) (birth_date p) (today e)) tr"
    and "int (length tr) \<le> max 0 ((today e - birth_date p) div 7 + 1)"
proof -
  obtain cur p1 g1 tr1 where
    sl: "sim_loop (sorted_modules ms) (today e) (birth_date p) p g [] = (cur, p1, g1, tr1)"
    by (cases "sim_loop (sorted_modules ms) (today e) (birth_date p) p g []")
  with assms have "tr = tr1"
    by (auto simp: run_modules_def split: prod.splits)
  with sim_loop_log [OF sl]
  show "list_all (step_ok (sorted_modules ms) (birth_date p) (birth_date p) (today e)) tr"
    and "int (length tr) \<le> max 0 ((today e - birth_date p) div 7 + 1)"
    by auto
qed


text \<open>
  C5, as amended. At every time step the modules are visited in the order of
  \<open>sorted_modules\<close>: ascending priority (a missing priority counts as 0), modules of equal
  priority keeping the order in which they were given (not the order of their names).
\<close>

theorem evaluation_order:
  assumes "run_modules e ms p g = (p', g', tr)" and "s \<in> set tr"
  shows "map fst (step_visits s) = sorted_modules ms
       \<and> sorted (map priority (sorted_modules ms))
       \<and> (\<forall>k. filter (\<lambda>m. priority m = k) (sorted_modules ms)
                = filter (\<lambda>m. priority m = k) ms)"
proof -
  from run_modules_log(1) [OF assms(1)] assms(2)
  have ok: "step_ok (sorted_modules ms) (birth_date p) (birth_date p) (today e) s"
    by (simp add: list_all_iff)
  then have "map fst (step_visits s) = sorted_modules ms"
    by (cases "is_evaluated s") (auto simp: step_ok_def)
  moreover have "sorted (map priority (sorted_modules ms))"
    by (simp add: sorted_modules_def)
  moreover have "\<forall>k. filter (\<lambda>m. priority m = k) (sorted_modules ms)
                = filter (\<lambda>m. priority m = k) ms"
    by (simp add: sorted_modules_def sort_key_stable)
  ultimately show ?thesis by blast
qed


lemma generate_patient_once:
  "\<not> generate_only_living_patients c \<Longrightarrow>
     generate_patient mt (Suc depth) e c ms i g = generate_patient mt (Suc 0) e c ms i g"
  by (simp split: prod.splits sum.splits)

text \<open>
  C3, as amended. One pass of the simulation performs at most
  \<open>(today - birth_date) div 7 + 1\<close> iterations (none when the birth date is after today);
  and when dead patients are accepted, \<open>generate_patient\<close> returns after one pass,
  without calling itself: one call frame is enough whatever the depth allowed.
\<close>

theorem simulation_bounded:
  assumes "\<not> generate_only_living_patients c"
  shows "int (length (snd (snd (run_modules e ms p g))))
           \<le> max 0 ((today e - birth_date p) div 7 + 1)
       \<and> generate_patient mt (Suc depth) e c ms i g = generate_patient mt (Suc 0) e c ms i g"
proof -
  obtain p' g' tr where r: "run_modules e ms p g = (p', g', tr)"
    by (cases "run_modules e ms p g")
  from run_modules_log(2) [OF r] r generate_patient_once [OF assms] show ?thesis by simp
qed

subsection \<open>Evaluating the simulation on the example inputs\<close>

lemmas date_defs = today_def ymd2ord_def days_before_year_def days_before_month_def
  days_in_month_def is_leap_def

lemma today_new_year: "today (new_year_2024\<lparr>now := t\<rparr>) = 738886"
  by (simp add: new_year_2024_def date_defs)

lemma today_second_week: "today second_week_2024 = 738893"
  by (simp add: second_week_2024_def date_defs)

lemma birth_newborn:
  "birth_date (newborn\<lparr>created_at := t\<rparr>) = 738886" "is_alive (newborn\<lparr>created_at := t\<rparr>)"
  "death_date (newborn\<lparr>created_at := t\<rparr>) = None"
  by (simp_all add: newborn_def)

lemma newborn_same: "newborn\<lparr>created_at := 0\<rparr> = newborn"
  by (simp add: newborn_def)

lemmas module_defs = should_run_module_def gender_blocked_def required_ok_def process_module_def
  empty_module_def empty_state_def

lemma visit_ba: "for_modules [mod_b, mod_a] [] d p g = (p, g, [(mod_b, True), (mod_a, True)])"
  by (simp add: mod_a_def mod_b_def module_defs)

lemma sorted_ba: "sorted_modules [mod_b, mod_a] = [mod_b, mod_a]"
  by (simp add: sorted_modules_def priority_def mod_a_def mod_b_def empty_module_def)

lemma run_ba:
  "run_modules second_week_2024 [mod_b, mod_a] newborn (draws [])
     = (newborn, draws [],
        [Evaluated 738886 [(mod_b, True), (mod_a, True)],
         Evaluated 738893 [(mod_b, True), (mod_a, True)]])"
proof -
  have "sim_loop [mod_b, mod_a] 738893 738886 newborn (draws []) []
          = sim_loop [mod_b, mod_a] 738893 (738886 + 7) newborn (draws [])
              ([] @ [Evaluated 738886 [(mod_b, True), (mod_a, True)]])"
    by (rule sim_loop_eval [OF _ _ _ visit_ba]) (simp_all add: newborn_def)
  also have "\<dots> = sim_loop [mod_b, mod_a] 738893 (738893 + 7) newborn (draws [])
              ([Evaluated 738886 [(mod_b, True), (mod_a, True)]]
                 @ [Evaluated 738893 [(mod_b, True), (mod_a, True)]])"
    using sim_loop_eval [OF _ _ _ visit_ba, of 738893 738893 newborn "draws []"
        "[Evaluated 738886 [(mod_b, True), (mod_a, True)]]"]
    by (simp add: newborn_def)
  also have "\<dots> = (738900, newborn, draws [],
              [Evaluated 738886 [(mod_b, True), (mod_a, True)],
               Evaluated 738893 [(mod_b, True), (mod_a, True)]])"
    by (simp add: sim_loop_stop)
  finally show ?thesis
    by (simp add: run_modules_def sorted_ba today_second_week record_death_def newborn_def)
qed

lemma visit_death:
  "for_modules [certain_death] [] d p (draws [])
     = (killed_at d p, draws [], [(certain_death, True)])"
  by (simp add: certain_death_def module_defs random_random_def draws_def
        death_prob_def killed_at_def)

lemma run_death:
  assumes "today e = birth_date p" and "is_alive p"
  shows "run_modules e [certain_death] p (draws [])
     = (killed_at (birth_date p) p, draws [], [Evaluated (birth_date p) [(certain_death, True)]])"
proof -
  have "sim_loop [certain_death] (birth_date p) (birth_date p) p (draws []) []
          = sim_loop [certain_death] (birth_date p) (birth_date p + 7)
              (killed_at (birth_date p) p) (draws [])
              ([] @ [Evaluated (birth_date p) [(certain_death, True)]])"
    by (rule sim_loop_eval [OF _ _ _ visit_death]) (simp_all add: assms)
  also have "\<dots> = (birth_date p + 7, killed_at (birth_date p) p, draws [],
                     [Evaluated (birth_date p) [(certain_death, True)]])"
    by (simp add: sim_loop_stop killed_at_def)
  finally show ?thesis
    by (simp add: run_modules_def sorted_modules_def assms record_death_def killed_at_def)
qed

lemma run_none:
  assumes "today e = birth_date p" and "is_alive p"
  shows "run_modules e [] p g = (p, g, [Evaluated (birth_date p) []])"
proof -
  have v: "for_modules [] [] (birth_date p) p g = (p, g, [])" by simp
  have "sim_loop [] (birth_date p) (birth_date p) p g []
          = sim_loop [] (birth_date p) (birth_date p + 7) p g ([] @ [Evaluated (birth_date p) []])"
    by (rule sim_loop_eval [OF _ _ _ v]) (simp_all add: assms)
  also have "\<dots> = (birth_date p + 7, p, g, [Evaluated (birth_date p) []])"
    by (simp add: sim_loop_stop)
  finally show ?thesis
    by (simp add: run_modules_def sorted_modules_def assms record_death_def)
qed

lemma char_digits: "char_of (48 :: nat) = CHR ''0''" "char_of (49 :: nat) = CHR ''1''"
  by code_simp+

lemma replicate_5: "replicate 5 x = [x, x, x, x, x]"
  by (simp add: numeral_eq_Suc)

lemmas demo_defs = generate_demographics_def randomly_select_gender_def
  randomly_select_race_def random_random_def random_randint_def random_choice_def bind_r_def
  birth_month_day_def mk_date_def get_first_name_def get_last_name_def get_location_def
  DEFAULT_RACE_DISTRIBUTION_def DEFAULT_FIRST_NAMES_MALE_def DEFAULT_LAST_NAMES_def
  DEFAULT_LOCATIONS_def race_of_name_def lower_def lower_char_def days_in_month_def is_leap_def
  ymd2ord_def days_before_year_def days_before_month_def get_ethnicity_def fmt_06d_def
  str_int_def

lemma demographics_newborn:
  "max_age c = 0 \<Longrightarrow> min_age c = 0 \<Longrightarrow> gender_ratio c = [(''M'', to_float (49 / 100)), (''F'', to_float (51 / 100))] \<Longrightarrow>
   generate_demographics (new_year_2024\<lparr>now := t\<rparr>) c 0 (draws [])
     = (Inr (newborn\<lparr>created_at := t\<rparr>), draws [])"
  by (simp add: demo_defs new_year_2024_def newborn_def draws_def char_digits replicate_5
        select_default_ratio)

subsection \<open>Generating one patient\<close>

lemma depth_1000: "(1000::nat) = Suc 999"
  by simp

lemma depth_1: "(1::nat) = Suc 0"
  by simp

lemma seeded_fields:
  "seed seeded_config = Some 0" "max_age seeded_config = 0" "min_age seeded_config = 0"
  "gender_ratio seeded_config = [(''M'', to_float (49 / 100)), (''F'', to_float (51 / 100))]"
  "\<not> generate_only_living_patients seeded_config"
  by (simp_all add: seeded_config_def default_config_def)

lemma living_fields:
  "seed living_config = Some 0" "max_age living_config = 0" "min_age living_config = 0"
  "gender_ratio living_config = [(''M'', to_float (49 / 100)), (''F'', to_float (51 / 100))]"
  "generate_only_living_patients living_config"
  by (simp_all add: living_config_def seeded_config_def default_config_def)

lemma seed_zero: "seed c = Some 0 \<Longrightarrow> seed_patient mt_zero c 0 g = (Inr (), draws [])"
  by (simp add: seed_patient_def mt_zero_def)

lemma one_pass_seeded:
  "generate_patient mt_zero (Suc d) (new_year_2024\<lparr>now := t\<rparr>) seeded_config [] 0 g
     = (Inr (newborn\<lparr>created_at := t\<rparr>), draws [])"
  by (simp add: seed_zero seeded_fields demographics_newborn run_none today_new_year birth_newborn)

lemma regeneration_repeats:
  "fst (generate_patient mt_zero n (new_year_2024\<lparr>now := t\<rparr>) living_config [certain_death] 0 g)
     = Inl RecursionError"
proof (induction n arbitrary: g)
  case 0
  show ?case by simp
next
  case (Suc n)
  have "generate_patient mt_zero (Suc n) (new_year_2024\<lparr>now := t\<rparr>) living_config [certain_death] 0 g
          = generate_patient mt_zero n (new_year_2024\<lparr>now := t\<rparr>) living_config [certain_death] 0
              (draws [])"
    by (simp add: seed_zero living_fields demographics_newborn run_death today_new_year
          birth_newborn killed_at_def)
  with Suc.IH show ?case by simp
qed

text \<open>
  C1, as amended. With a global seed, what \<open>generate_patient\<close> produces for an ordinal
  (the patient record or the exception) is a function of the seed, the ordinal, the
  modules and the clock reading alone: it is the same whatever state the process's random
  generator was in when the call started, hence the same on the sequential path, in any
  worker of a pool and in any order of completion.
\<close>

theorem determinism:
  assumes "seed c = Some s"
  shows "fst (generate_patient mt depth e c ms i g1) = fst (generate_patient mt depth e c ms i g2)"
proof (cases depth)
  case 0
  then show ?thesis by simp
next
  case (Suc d)
  have "seed_patient mt c i g1 = seed_patient mt c i g2"
    using assms by (simp add: seed_patient_def)
  then show ?thesis using Suc by simp
qed

theorem determinism_witness:
  "seed seeded_config = Some 0
   \<and> fst (generate_patient mt_zero 1 new_year_2024 seeded_config [] 0 (draws []))
       = fst (generate_patient mt_zero 1 new_year_2024 seeded_config [] 0 (draws [1 / 2]))"
  by (rule conjI [OF seeded_fields(1) determinism [OF seeded_fields(1)]])

lemma new_year_now: "new_year_2024\<lparr>now := 0\<rparr> = new_year_2024"
  by (simp add: new_year_2024_def)

text \<open>
  C1 as stated fails: two runs with the same seed and ordinal that read the clock at
  different instants give records that differ (in \<open>created_at\<close>).
\<close>

theorem determinism_counterexample:
  "fst (generate_patient mt_zero 1 new_year_2024 seeded_config [] 0 (draws []))
     \<noteq> fst (generate_patient mt_zero 1 (new_year_2024\<lparr>now := 1\<rparr>) seeded_config [] 0 (draws []))"
proof -
  have a: "generate_patient mt_zero 1 (new_year_2024\<lparr>now := 0\<rparr>) seeded_config [] 0 (draws [])
            = (Inr (newborn\<lparr>created_at := 0\<rparr>), draws [])"
    using one_pass_seeded [of 0 0 "draws []"] by (simp only: depth_1)
  have b: "generate_patient mt_zero 1 (new_year_2024\<lparr>now := 1\<rparr>) seeded_config [] 0 (draws [])
            = (Inr (newborn\<lparr>created_at := 1\<rparr>), draws [])"
    using one_pass_seeded [of 0 1 "draws []"] by (simp only: depth_1)
  from a b show ?thesis by (simp add: new_year_now newborn_def)
qed

subsection \<open>Instances of the theorems on the simulation\<close>

lemma newborn_facts: "today new_year_2024 = birth_date newborn" "is_alive newborn"
  "birth_date newborn = 738886"
  using today_new_year [of 0] by (simp_all add: new_year_now newborn_def)


theorem evaluation_order_witness:
  "run_modules second_week_2024 [mod_b, mod_a] newborn (draws [])
     = (newborn, draws [],
        [Evaluated 738886 [(mod_b, True), (mod_a, True)],
         Evaluated 738893 [(mod_b, True), (mod_a, True)]])
   \<and> Evaluated 738886 [(mod_b, True), (mod_a, True)]
       \<in> set [Evaluated 738886 [(mod_b, True), (mod_a, True)],
               Evaluated 738893 [(mod_b, True), (mod_a, True)]]
   \<and> (map fst (step_visits (Evaluated 738886 [(mod_b, True), (mod_a, True)]))
         = sorted_modules [mod_b, mod_a]
      \<and> sorted (map priority (sorted_modules [mod_b, mod_a]))
      \<and> (\<forall>k. filter (\<lambda>m. priority m = k) (sorted_modules [mod_b, mod_a])
               = filter (\<lambda>m. priority m = k) [mod_b, mod_a]))"
proof -
  have h2: "Evaluated 738886 [(mod_b, True), (mod_a, True)]
       \<in> set [Evaluated 738886 [(mod_b, True), (mod_a, True)],
               Evaluated 738893 [(mod_b, True), (mod_a, True)]]" by simp
  show ?thesis by (intro conjI run_ba h2 evaluation_order [OF run_ba h2])
qed

text \<open>
  C5 as stated fails: of two modules of equal priority the one named b, which was given
  first, is visited before the one named a.
\<close>

theorem evaluation_order_counterexample:
  "map (m_name \<circ> fst)
       (step_visits (hd (snd (snd (run_modules second_week_2024 [mod_b, mod_a] newborn (draws []))))))
     = [Some ''b'', Some ''a'']
   \<and> priority mod_b = priority mod_a"
proof -
  have "step_visits (hd (snd (snd (run_modules second_week_2024 [mod_b, mod_a] newborn (draws [])))))
          = [(mod_b, True), (mod_a, True)]"
    by (simp add: run_ba)
  then show ?thesis
    by (simp add: mod_a_def mod_b_def empty_module_def priority_def)
qed


theorem simulation_bounded_witness:
  "\<not> generate_only_living_patients seeded_config
   \<and> (int (length (snd (snd (run_modules new_year_2024 [] newborn (draws [])))))
         \<le> max 0 ((today new_year_2024 - birth_date newborn) div 7 + 1)
      \<and> generate_patient mt_zero (Suc 999) new_year_2024 seeded_config [] 0 (draws [])
          = generate_patient mt_zero (Suc 0) new_year_2024 seeded_config [] 0 (draws []))"
  by (intro conjI seeded_fields(5) simulation_bounded [OF seeded_fields(5)])

text \<open>
  C3 as stated fails twice. A patient born today is simulated for one iteration, more than
  lifespan in days over step size, which is 0. And with a seed, dead patients refused and a
  module that kills at the first step, every retry reseeds the generator to the same
  state and dies again: no depth of recursion yields a patient.
\<close>

theorem simulation_bounded_counterexample:
  "(today new_year_2024 - birth_date newborn) div 7
     < int (length (snd (snd (run_modules new_year_2024 [] newborn (draws [])))))
   \<and> generate_only_living_patients living_config
   \<and> fst (generate_patient mt_zero 1000 new_year_2024 living_config [certain_death] 0 (draws []))
       = Inl RecursionError"
proof -
  have a: "run_modules new_year_2024 [] newborn (draws [])
             = (newborn, draws [], [Evaluated (birth_date newborn) []])"
    by (rule run_none [OF newborn_facts(1) newborn_facts(2)])
  have b: "fst (generate_patient mt_zero 1000 (new_year_2024\<lparr>now := 0\<rparr>) living_config
                  [certain_death] 0 (draws [])) = Inl RecursionError"
    by (rule regeneration_repeats)
  from a b show ?thesis by (simp add: newborn_facts living_fields new_year_now)
qed

subsection \<open>States other than Death\<close>

lemma process_states_no_death:
  "list_all (\<lambda>s. s_type s \<noteq> Some ''Death'') ss \<Longrightarrow> process_states ss p d g = (p, g)"
  by (induction ss) auto

text \<open>
  C8, as amended. Evaluating a module none of whose states has type Death (a state with
  weighted transitions, whatever its weights, is one) makes no draw and selects nothing:
  the patient and the generator are returned as they were. Only Death states draw.
\<close>

theorem only_death_states_draw:
  assumes "m_states m = Some ss" and "list_all (\<lambda>s. s_type s \<noteq> Some ''Death'') ss"
  shows "process_module m p d g = (p, g)"
  using assms by (simp add: process_module_def process_states_no_death)

lemma branching_states: "m_states branching = Some [branch_211]"
  by (simp add: branching_def empty_module_def)

lemma branching_no_death: "list_all (\<lambda>s. s_type s \<noteq> Some ''Death'') [branch_211]"
  by (simp add: branch_211_def empty_state_def)

theorem only_death_states_draw_witness:
  "m_states branching = Some [branch_211]
   \<and> list_all (\<lambda>s. s_type s \<noteq> Some ''Death'') [branch_211]
   \<and> process_module branching newborn 738886 (draws [49 / 100, 51 / 100])
       = (newborn, draws [49 / 100, 51 / 100])"
  by (intro conjI branching_states branching_no_death
        only_death_states_draw [OF branching_states branching_no_death])

text \<open>
  C8 as stated fails: after a state with weights 2, 1, 1 has been evaluated the next draw
  of the generator is still its first one, 0.49 (no draw was made), and the patient is
  unchanged.
\<close>

theorem weighted_transition_counterexample:
  "distributed_transition branch_211 = Some [(2, ''A''), (1, ''B''), (1, ''C'')]
   \<and> fst (process_module branching newborn 738886 (draws [49 / 100, 51 / 100])) = newborn
   \<and> fst (random_random (snd (process_module branching newborn 738886
                                  (draws [49 / 100, 51 / 100])))) = 49 / 100
   \<and> fst (random_random (snd (random_random (draws [49 / 100, 51 / 100])))) = 51 / 100"
  by (simp add: process_module_def branching_def branch_211_def empty_module_def empty_state_def
        random_random_def draws_def)

subsection \<open>Generating the population\<close>

lemma collect_fold:
  "fold (collect mt depth clock c ms wrng) order (ps, errs) =
     (ps @ concat (map (\<lambda>i. case fst (generate_patient mt depth (clock i) c ms (int i) (wrng i))
                             of Inr p \<Rightarrow> [p] | Inl err \<Rightarrow> []) order),
      errs @ concat (map (\<lambda>i. case fst (generate_patient mt depth (clock i) c ms (int i) (wrng i))
                               of Inr p \<Rightarrow> [] | Inl err \<Rightarrow> [err]) order))"
proof (induction order arbitrary: ps errs)
  case Nil
  show ?case by simp
next
  case (Cons i order)
  show ?case
  proof (cases "fst (generate_patient mt depth (clock i) c ms (int i) (wrng i))")
    case (Inl err)
    then have st: "collect mt depth clock c ms wrng i (ps, errs) = (ps, errs @ [err])"
      by (simp add: collect_def)
    show ?thesis by (simp add: st Cons.IH Inl)
  next
    case (Inr p)
    then have st: "collect mt depth clock c ms wrng i (ps, errs) = (ps @ [p], errs)"
      by (simp add: collect_def)
    show ?thesis by (simp add: st Cons.IH Inr)
  qed
qed

text \<open>
  The pooled path isolates failures: the patients returned are those of the ordinals
  whose generation succeeded, in completion order, and every exception is logged.
\<close>

lemma generate_pool_isolates:
  "generate_pool mt depth clock c ms order wrng =
     (concat (map (\<lambda>i. case fst (generate_patient mt depth (clock i) c ms (int i) (wrng i))
                        of Inr p \<Rightarrow> [p] | Inl err \<Rightarrow> []) order),
      concat (map (\<lambda>i. case fst (generate_patient mt depth (clock i) c ms (int i) (wrng i))
                        of Inr p \<Rightarrow> [] | Inl err \<Rightarrow> [err]) order))"
  using collect_fold [of mt depth clock c ms wrng order "[]" "[]"]
  by (simp add: generate_pool_def)





text \<open>
  C2. The sequential path, taken for a population of at most 10 or a single worker, has no
  exception handler: with seed \<open>2^32 - 1\<close> ordinal 0 is generated, the seeding of ordinal 1
  raises ValueError, and the whole run ends with that exception instead of returning the
  patient of ordinal 0.
\<close>

theorem sequential_run_aborts:
  "fst (generate_patient mt_zero 1000 new_year_2024 overflow_config [] 0 (draws [])) = Inr newborn
   \<and> fst (generate_patient mt_zero 1000 new_year_2024 overflow_config [] 1 (draws []))
       = Inl ValueError
   \<and> generate_population mt_zero 1000 (const_clock new_year_2024) overflow_config [] [0, 1]
        (same_rng (draws [])) (draws [])
       = (Inl ValueError, [])"
proof -
  have f: "seed overflow_config = Some 4294967295" "max_age overflow_config = 0"
    "min_age overflow_config = 0"
    "gender_ratio overflow_config = [(''M'', to_float (49 / 100)), (''F'', to_float (51 / 100))]"
    "\<not> generate_only_living_patients overflow_config" "population_size overflow_config = 2"
    by (simp_all add: overflow_config_def default_config_def)
  have s0: "seed_patient mt_zero overflow_config 0 g = (Inr (), draws [])" for g
    by (simp add: seed_patient_def f mt_zero_def)
  have s1: "seed_patient mt_zero overflow_config 1 g = (Inl ValueError, draws [])" for g
    by (simp add: seed_patient_def f mt_zero_def)
  have p0: "generate_patient mt_zero (Suc d) (new_year_2024\<lparr>now := 0\<rparr>) overflow_config [] 0 g
              = (Inr (newborn\<lparr>created_at := 0\<rparr>), draws [])" for g d
    by (simp add: s0 f demographics_newborn run_none today_new_year birth_newborn)
  have p1: "generate_patient mt_zero (Suc d) (new_year_2024\<lparr>now := 0\<rparr>) overflow_config [] 1 g
              = (Inl ValueError, draws [])" for g d
    by (simp add: s1)
  have up: "[0..<2] = [0, Suc 0]" by (simp add: upt_rec)
  have seq: "generate_population mt_zero (Suc d) (const_clock (new_year_2024\<lparr>now := 0\<rparr>))
               overflow_config [] [0, 1] (same_rng (draws [])) (draws []) = (Inl ValueError, [])"
    for d
    by (simp add: generate_population_def f up const_clock_def p0 p1
          del: generate_patient.simps)
  from p0 [of 999 "draws []"] p1 [of 999 "draws []"] seq [of 999] show ?thesis
    unfolding depth_1000 new_year_now newborn_same by simp
qed

subsection \<open>Sequential and pooled runs agree\<close>

lemma seeded_call:
  "seed c = Some s \<Longrightarrow>
     fst (generate_patient mt depth e c ms i g1) = fst (generate_patient mt depth e c ms i g2)"
proof (cases depth)
  case 0
  then show ?thesis by simp
next
  case (Suc d)
  assume "seed c = Some s"
  then have "seed_patient mt c i g1 = seed_patient mt c i g2"
    by (simp add: seed_patient_def)
  then show ?thesis using Suc by simp
qed

text \<open>
  With a seed, the patient the sequential path returns at a position is the patient any
  worker produces for the ordinal at that position.
\<close>

lemma sequential_patient:
  assumes "seed c = Some s"
    and "fst (generate_sequential mt depth clock c ms ords g) = Inr ps"
    and "k < length ords"
  shows "fst (generate_patient mt depth (clock (ords ! k)) c ms (int (ords ! k)) g') = Inr (ps ! k)"
  using assms(2,3)
proof (induction ords arbitrary: g ps k)
  case Nil
  then show ?case by simp
next
  case (Cons i ords)
  obtain r g1 where gp: "generate_patient mt depth (clock i) c ms (int i) g = (r, g1)"
    by (cases "generate_patient mt depth (clock i) c ms (int i) g")
  obtain r2 g2 where gs: "generate_sequential mt depth clock c ms ords g1 = (r2, g2)"
    by (cases "generate_sequential mt depth clock c ms ords g1")
  from Cons.prems(1) gp gs obtain p ps' where
    r: "r = Inr p" and r2: "r2 = Inr ps'" and ps: "ps = p # ps'"
    by (cases r; cases r2) (auto simp del: generate_patient.simps)
  show ?case
  proof (cases k)
    case 0
    from seeded_call [OF assms(1), of mt depth "clock i" ms "int i" g' g] gp r
    have "fst (generate_patient mt depth (clock i) c ms (int i) g') = Inr p" by simp
    with 0 ps show ?thesis by simp
  next
    case (Suc j)
    from gs r2 have "fst (generate_sequential mt depth clock c ms ords g1) = Inr ps'" by simp
    from Cons.IH [OF this, of j] Cons.prems(2) Suc ps show ?thesis by simp
  qed
qed

lemma concat_map_singleton: "concat (map (\<lambda>i. [f i]) xs) = map f xs"
  by (induction xs) auto

text \<open>
  With a seed, a pooled run whose futures complete in any order returns, for each
  completed ordinal, the patient a sequential run returns for it, and logs no error.
\<close>

lemma pool_agrees_with_sequential:
  assumes "seed c = Some s"
    and "fst (generate_sequential mt depth clock c ms [0..<n] g) = Inr ps"
    and "\<forall>i \<in> set order. i < n"
  shows "generate_pool mt depth clock c ms order wrng = (map (\<lambda>i. ps ! i) order, [])"
proof -
  have each: "fst (generate_patient mt depth (clock i) c ms (int i) (wrng i)) = Inr (ps ! i)"
    if "i \<in> set order" for i
  proof -
    from that assms(3) have "i < n" by blast
    with sequential_patient [OF assms(1,2), of i "wrng i"] show ?thesis by simp
  qed
  have a: "map (\<lambda>i. case fst (generate_patient mt depth (clock i) c ms (int i) (wrng i))
                      of Inr p \<Rightarrow> [p] | Inl err \<Rightarrow> []) order
             = map (\<lambda>i. [ps ! i]) order"
    by (rule map_cong) (simp_all add: each)
  have b: "map (\<lambda>i. case fst (generate_patient mt depth (clock i) c ms (int i) (wrng i))
                      of Inr p \<Rightarrow> [] | Inl err \<Rightarrow> [err]) order
             = map (\<lambda>i. []) order"
    by (rule map_cong) (simp_all add: each)
  show ?thesis
    by (simp only: generate_pool_isolates a b concat_map_singleton) simp
qed

end
